theory Spec2Isabelle
  imports Main "HOL-Library.AList"
begin

section \<open>JavaScript values and diagnostics\<close>

text \<open>
  The hooks of the plugin driver return untyped JavaScript values. Only the tests that
  \<^verbatim>\<open>Graph.ts\<close> performs on them are modelled: \<^verbatim>\<open>typeof\<close>, truthiness and the
  lookup of an own property.
\<close>

datatype JsValue =
    JsUndefined
  | JsNull
  | JsBoolean bool
  | JsNumber int
  | JsString string
  | JsFunction
  | JsObject "(string \<times> JsValue) list"

fun typeof :: "JsValue \<Rightarrow> string" where
  "typeof JsUndefined = ''undefined''"
| "typeof JsNull = ''object''"
| "typeof (JsBoolean b) = ''boolean''"
| "typeof (JsNumber n) = ''number''"
| "typeof (JsString s) = ''string''"
| "typeof JsFunction = ''function''"
| "typeof (JsObject props) = ''object''"

fun truthy :: "JsValue \<Rightarrow> bool" where
  "truthy JsUndefined = False"
| "truthy JsNull = False"
| "truthy (JsBoolean b) = b"
| "truthy (JsNumber n) = (n \<noteq> 0)"
| "truthy (JsString s) = (s \<noteq> [])"
| "truthy JsFunction = True"
| "truthy (JsObject props) = True"

fun getProp :: "JsValue \<Rightarrow> string \<Rightarrow> JsValue" where
  "getProp (JsObject props) k = (case map_of props k of Some v \<Rightarrow> v | None \<Rightarrow> JsUndefined)"
| "getProp v k = JsUndefined"

datatype Code =
    UNRESOLVED_ENTRY
  | DUPLICATE_ENTRY_POINTS
  | BAD_LOADER
  | UNRESOLVED_IMPORT
  | INVALID_EXTERNAL_ID
  | NAMESPACE_CONFLICT
  | CIRCULAR_DEPENDENCY

text \<open>
  \<^verbatim>\<open>error({code, message})\<close> throws a record with a code; \<^verbatim>\<open>throw new Error(msg)\<close>
  throws a plain error; reading a property of \<^verbatim>\<open>undefined\<close> throws a TypeError.
\<close>

datatype Failure =
    RollupError Code
  | JsError string
  | TypeError

datatype 'a Settled = Fulfilled 'a | Rejected string

section \<open>The external classifier (constructor, lines 144-152)\<close>

datatype ExternalOption =
    ExternalFunction "string \<Rightarrow> string \<Rightarrow> bool \<Rightarrow> bool"
  | ExternalArray "string list"
  | ExternalValue string
  | ExternalUndefined

definition startsWith :: "string \<Rightarrow> string \<Rightarrow> bool" where
  "startsWith s p = (take (length p) s = p)"

definition NUL :: string where
  "NUL = [CHR 0x00]"

text \<open>
  \<^verbatim>\<open>new Set(Array.isArray(external) ? external : external ? [external] : [])\<close>:
  a single value that is not an array counts when it is truthy (a non-empty string).
\<close>

fun externalIds :: "ExternalOption \<Rightarrow> string list" where
  "externalIds (ExternalArray ids) = ids"
| "externalIds (ExternalValue v) = (if v \<noteq> [] then [v] else [])"
| "externalIds opt = []"

fun isExternal :: "ExternalOption \<Rightarrow> string \<Rightarrow> string \<Rightarrow> bool \<Rightarrow> bool" where
  "isExternal (ExternalFunction external) ident parentId isResolved =
     (\<not> startsWith ident NUL \<and> external ident parentId isResolved)"
| "isExternal opt ident parentId isResolved = (ident \<in> set (externalIds opt))"

section \<open>fetchModule: the settled load hook (lines 518-539)\<close>

definition truthyString :: "string option \<Rightarrow> bool" where
  "truthyString s = (case s of None \<Rightarrow> False | Some t \<Rightarrow> t \<noteq> [])"

definition couldNotLoad :: "string \<Rightarrow> string option \<Rightarrow> string \<Rightarrow> string" where
  "couldNotLoad ident importer message =
     (let msg = ''Could not load '' @ ident;
          msg = (if truthyString importer
                 then msg @ '' (imported by '' @ the importer @ '')'' else msg)
      in msg @ '': '' @ message)"

definition load_then :: "JsValue \<Rightarrow> Failure + JsValue" where
  "load_then source =
     (if typeof source = ''string'' then Inr source
      else if truthy source \<and> typeof source = ''object''
              \<and> typeof (getProp source ''code'') = ''string'' then Inr source
      else Inl (RollupError BAD_LOADER))"

definition fetchModule_loaded :: "string \<Rightarrow> string option \<Rightarrow> JsValue Settled \<Rightarrow> Failure + JsValue" where
  "fetchModule_loaded ident importer settled =
     (case settled of
        Rejected message \<Rightarrow> Inl (JsError (couldNotLoad ident importer message))
      | Fulfilled source \<Rightarrow> load_then source)"

text \<open>
  The values the validation lets through, stated on the shape of the value: a string, or
  an object whose own \<^verbatim>\<open>code\<close> is a string.
\<close>

definition acceptedSource :: "JsValue \<Rightarrow> bool" where
  "acceptedSource source =
     ((\<exists>s. source = JsString s)
      \<or> (\<exists>props c. source = JsObject props \<and> map_of props ''code'' = Some (JsString c)))"

section \<open>The load hook through the plugin driver\<close>

text \<open>
  Modelled from the spec: \<^verbatim>\<open>pluginDriver.hookFirst\<close> (utils/pluginDriver) "invokes
  registered plugins in registration order; returns the first non-nullish result", and
  \<^verbatim>\<open>false\<close> is "a meaningful signal distinct from nullish". A hook that rejects
  rejects the whole call. With no result that is not nullish the call settles with a
  nullish value.
\<close>

fun nullish :: "JsValue \<Rightarrow> bool" where
  "nullish JsUndefined = True"
| "nullish JsNull = True"
| "nullish v = False"

fun hookFirst :: "JsValue Settled list \<Rightarrow> JsValue Settled" where
  "hookFirst [] = Fulfilled JsUndefined"
| "hookFirst (Rejected message # rest) = Rejected message"
| "hookFirst (Fulfilled result # rest) =
     (if nullish result then hookFirst rest else Fulfilled result)"

text \<open>
  Modelled from the spec: for \<^verbatim>\<open>load\<close>, a nullish result of the plugins' hooks is
  "read from disk via host fallback". The host's reader comes last in the order of the
  load hooks; it settles with the contents of the file, a string, or rejects when the
  file cannot be read. \<^verbatim>\<open>plugins\<close> are the settled results of the plugins' load
  hooks, in registration order, and \<^verbatim>\<open>disk\<close> is the settled read.
\<close>

definition hookFirst_load :: "JsValue Settled list \<Rightarrow> string Settled \<Rightarrow> JsValue Settled" where
  "hookFirst_load plugins disk =
     hookFirst (plugins @ [case disk of
                             Fulfilled contents \<Rightarrow> Fulfilled (JsString contents)
                           | Rejected message \<Rightarrow> Rejected message])"

section \<open>Objects of the module graph\<close>

text \<open>
  Modules and external modules are JavaScript objects with identity: \<^verbatim>\<open>moduleById\<close>,
  \<^verbatim>\<open>modules\<close>, \<^verbatim>\<open>externalModules\<close> and the resolutions of dynamic imports hold
  references to them. The model keeps them in a store indexed by references, so that two
  keys of \<^verbatim>\<open>moduleById\<close> can name one object.

  The classes \<^verbatim>\<open>Module\<close> and \<^verbatim>\<open>ExternalModule\<close> are not defined in \<^verbatim>\<open>Graph.ts\<close>; the
  records below hold the fields that \<^verbatim>\<open>Graph.ts\<close> reads and writes. Dictionary objects
  that the code enumerates with \<^verbatim>\<open>for ... in\<close> are association lists in insertion order
  (their keys are identifiers, never array indices); the others are maps.
\<close>

type_synonym ref = nat

record ImportDescription =
  imp_source :: string
  imp_name :: string

datatype DynamicImportExpression =
    StringExpression string
  | NodeExpression nat

datatype Resolution =
    NoResolution
  | ReplacementResolution string
  | ObjectResolution ref

record DynamicImportResolution =
  dyn_alias :: "string option"
  dyn_resolution :: Resolution

record Module =
  module_id :: string
  sources :: "string list"
  resolvedIds :: "string \<rightharpoonup> string"
  imports' :: "(string \<times> ImportDescription) list"
  exports :: "(string \<times> string) list"
  exportAllSources :: "string list"
  exportsAll :: "(string \<times> string) list"
  dynamicImportExpressions :: "DynamicImportExpression list"
  dynamicImportResolutions :: "nat \<rightharpoonup> DynamicImportResolution"
  module_exportsNamespace :: bool
  isEntryPoint :: bool
  entryPointsHash :: "nat list"
  execIndex :: nat

record ExternalModule =
  external_id :: string
  exportsNamespace :: bool
  tracedExports :: "string list"

datatype Obj =
    ModuleObj Module
  | ExternalModuleObj ExternalModule

text \<open>
  Modelled from the spec: \<^verbatim>\<open>new Module(graph, id)\<close> and \<^verbatim>\<open>new ExternalModule({graph, id})\<close>
  (the constructors live in \<^verbatim>\<open>Module.ts\<close> and \<^verbatim>\<open>ExternalModule.ts\<close>). A module is
  "created when first fetched", with nothing analysed yet and an \<^verbatim>\<open>entryPointsHash\<close>
  of 16 zero bytes; \<^verbatim>\<open>execIndex\<close> is its position in the execution order, assigned by
  the execution-order analyzer. An external module has its id, an empty used-import set
  and \<^verbatim>\<open>exportsNamespace\<close> unset.
\<close>

definition newModule :: "string \<Rightarrow> Module" where
  "newModule ident =
     \<lparr> module_id = ident, sources = [], resolvedIds = Map.empty, imports' = [], exports = [],
       exportAllSources = [], exportsAll = [], dynamicImportExpressions = [],
       dynamicImportResolutions = Map.empty, module_exportsNamespace = False,
       isEntryPoint = False, entryPointsHash = replicate 16 0, execIndex = 0 \<rparr>"

definition newExternalModule :: "string \<Rightarrow> ExternalModule" where
  "newExternalModule ident =
     \<lparr> external_id = ident, exportsNamespace = False, tracedExports = [] \<rparr>"

text \<open>
  Modelled from the spec: the property \<^verbatim>\<open>isExternal\<close> of the two classes
  (\<^verbatim>\<open>false\<close> on a \<^verbatim>\<open>Module\<close>, \<^verbatim>\<open>true\<close> on an \<^verbatim>\<open>ExternalModule\<close>).
\<close>

fun obj_isExternal :: "Obj \<Rightarrow> bool" where
  "obj_isExternal (ModuleObj m) = False"
| "obj_isExternal (ExternalModuleObj e) = True"

text \<open>
  Modelled from the spec: \<^verbatim>\<open>ExternalModule.traceExport(name)\<close> records that the
  import \<^verbatim>\<open>name\<close> is used ("record usage per import declaration"); the model keeps the
  names in call order.
\<close>

definition traceExport :: "string \<Rightarrow> ExternalModule \<Rightarrow> ExternalModule" where
  "traceExport name e = e\<lparr>tracedExports := tracedExports e @ [name]\<rparr>"

section \<open>The graph\<close>

record Asset =
  asset_name :: string
  asset_source :: string

text \<open>A cached module; of its fields \<^verbatim>\<open>Graph.ts\<close> reads the four below.\<close>

record ModuleJSON =
  json_id :: string
  originalCode :: string
  customTransformCache :: bool
  transformAssets :: "Asset list option"

datatype RollupWarning =
    UnresolvedImportWarning string string
  | NamespaceConflictWarning string string "string list"

fun warningCode :: "RollupWarning \<Rightarrow> Code" where
  "warningCode (UnresolvedImportWarning source importer) = UNRESOLVED_IMPORT"
| "warningCode (NamespaceConflictWarning reexporter name srcs) = NAMESPACE_CONFLICT"

text \<open>
  The calls that \<^verbatim>\<open>Graph.ts\<close> makes into the plugin driver and into \<^verbatim>\<open>transform\<close>,
  in the order it makes them. The log is the model's record of "the hook was invoked".
  The plugin driver is created over the graph (line 134), so a hook can read the graph
  when it is invoked: \<^verbatim>\<open>pluginViews\<close> records, for each call of the log, the
  \<^verbatim>\<open>moduleById\<close> and the \<^verbatim>\<open>watchFiles\<close> that the call finds.
\<close>

datatype PluginCall =
    LoadHook string
  | ResolveIdHook string "string option"
  | ResolveDynamicImportHook DynamicImportExpression string
  | TransformCall string
  | EmitAsset string string

record Graph =
  options_external :: ExternalOption
  heap :: "ref \<rightharpoonup> Obj"
  nextRef :: ref
  moduleById :: "string \<rightharpoonup> ref"
  externalModules :: "ref list"
  modules :: "ref list"
  watchFiles :: "string set"
  cachedModules :: "string \<rightharpoonup> ModuleJSON"
  warnings :: "RollupWarning list"
  pluginCalls :: "PluginCall list"
  pluginViews :: "((string \<rightharpoonup> ref) \<times> string set) list"

text \<open>
  The constructor (lines 85-89 and the field initialisers): later cache entries with the
  same id replace earlier ones, as \<^verbatim>\<open>Map.set\<close> does.
\<close>

definition newGraph :: "ExternalOption \<Rightarrow> ModuleJSON list \<Rightarrow> Graph" where
  "newGraph opt cache =
     \<lparr> options_external = opt, heap = Map.empty, nextRef = 0, moduleById = Map.empty,
       externalModules = [], modules = [], watchFiles = {},
       cachedModules = foldl (\<lambda>c module. c(json_id module \<mapsto> module)) Map.empty cache,
       warnings = [], pluginCalls = [], pluginViews = [] \<rparr>"

definition allocate :: "Graph \<Rightarrow> Obj \<Rightarrow> ref \<times> Graph" where
  "allocate g obj =
     (nextRef g, g\<lparr>heap := (heap g)(nextRef g \<mapsto> obj), nextRef := Suc (nextRef g)\<rparr>)"

text \<open>
  The callbacks hold their importing module in a variable and read its fields;
  \<^verbatim>\<open>theModule\<close> is that read, for a reference that holds a module.
\<close>

definition theModule :: "Graph \<Rightarrow> ref \<Rightarrow> Module" where
  "theModule g r = (case heap g r of Some (ModuleObj m) \<Rightarrow> m | _ \<Rightarrow> newModule [])"

definition updateModule :: "Graph \<Rightarrow> ref \<Rightarrow> (Module \<Rightarrow> Module) \<Rightarrow> Graph" where
  "updateModule g r f =
     (case heap g r of
        Some (ModuleObj m) \<Rightarrow> g\<lparr>heap := (heap g)(r \<mapsto> ModuleObj (f m))\<rparr>
      | _ \<Rightarrow> g)"

definition warn :: "Graph \<Rightarrow> RollupWarning \<Rightarrow> Graph" where
  "warn g warning = g\<lparr>warnings := warnings g @ [warning]\<rparr>"

definition pluginCall :: "Graph \<Rightarrow> PluginCall \<Rightarrow> Graph" where
  "pluginCall g c =
     g\<lparr>pluginCalls := pluginCalls g @ [c],
       pluginViews := pluginViews g @ [(moduleById g, watchFiles g)]\<rparr>"

section \<open>fetchModule: the synchronous start (lines 505-518)\<close>

text \<open>
  A call of \<^verbatim>\<open>fetchModule\<close> runs to the invocation of the load hook without
  suspension. It returns a promise; the model returns what the promise is built from.
\<close>

datatype FetchStart =
    Existing ref
  | Threw Failure
  | Loading ref

definition fetchModule :: "Graph \<Rightarrow> string \<Rightarrow> string option \<Rightarrow> Graph \<times> FetchStart" where
  "fetchModule g ident importer =
     (case moduleById g ident of
        Some existingModule \<Rightarrow>
          (if (case heap g existingModule of Some obj \<Rightarrow> obj_isExternal obj | None \<Rightarrow> False)
           then (g, Threw (JsError (''Cannot fetch external module '' @ ident)))
           else (g, Existing existingModule))
      | None \<Rightarrow>
          (let (module, g1) = allocate g (ModuleObj (newModule ident));
               g2 = g1\<lparr>moduleById := (moduleById g1)(ident \<mapsto> module)\<rparr>;
               g3 = g2\<lparr>watchFiles := insert ident (watchFiles g2)\<rparr>
           in (pluginCall g3 (LoadHook ident), Loading module)))"

section \<open>fetchModule: cache or transform (lines 540-564)\<close>

datatype TransformStart =
    Reused ModuleJSON
  | Transforming

definition emitAsset :: "Graph \<Rightarrow> Asset \<Rightarrow> Graph" where
  "emitAsset g asset = pluginCall g (EmitAsset (asset_name asset) (asset_source asset))"

definition loaded_then :: "Graph \<Rightarrow> string \<Rightarrow> ref \<Rightarrow> JsValue \<Rightarrow> Graph \<times> TransformStart" where
  "loaded_then g ident module source =
     (let sourceDescription =
            (if typeof source = ''string''
             then JsObject [(''code'', source), (''ast'', JsNull)] else source)
      in case cachedModules g ident of
           Some cachedModule \<Rightarrow>
             (if \<not> customTransformCache cachedModule
                 \<and> JsString (originalCode cachedModule) = getProp sourceDescription ''code''
              then (foldl emitAsset g
                      (case transformAssets cachedModule of None \<Rightarrow> [] | Some assets \<Rightarrow> assets),
                    Reused cachedModule)
              else (pluginCall g (TransformCall ident), Transforming))
         | None \<Rightarrow> (pluginCall g (TransformCall ident), Transforming))"

section \<open>fetchModule: the source is set (lines 565-571)\<close>

text \<open>
  Functions that \<^verbatim>\<open>Graph.ts\<close> imports from files outside it are parameters of the
  model: \<^verbatim>\<open>relativeId\<close> and \<^verbatim>\<open>getAliasName\<close> (utils/relativeId),
  \<^verbatim>\<open>isRelative\<close> and \<^verbatim>\<open>resolve\<close> (utils/path), and the analysis that
  \<^verbatim>\<open>Module.setSource\<close> runs on a source.
\<close>

record Host =
  relativeId :: "string \<Rightarrow> string"
  getAliasName :: "string \<Rightarrow> string option \<Rightarrow> string"
  isRelative :: "string \<Rightarrow> bool"
  resolve :: "string \<Rightarrow> string \<Rightarrow> string \<Rightarrow> string"
  analyse :: "ModuleJSON \<Rightarrow> Module"

text \<open>
  Modelled from the spec: \<^verbatim>\<open>Module.setSource(source)\<close> fills in what the analysis of
  the source finds (import specifiers, pre-resolved ids, import and export declarations,
  re-export-all specifiers, dynamic import expressions) and leaves the rest of the module
  as it is.
\<close>

definition setSource :: "Host \<Rightarrow> ModuleJSON \<Rightarrow> Module \<Rightarrow> Module" where
  "setSource h source m =
     (let a = analyse h source
      in m\<lparr> sources := sources a, resolvedIds := resolvedIds a, imports' := imports' a,
            exports := exports a, exportAllSources := exportAllSources a,
            dynamicImportExpressions := dynamicImportExpressions a \<rparr>)"

definition transformed_then :: "Host \<Rightarrow> Graph \<Rightarrow> string \<Rightarrow> ref \<Rightarrow> ModuleJSON \<Rightarrow> Graph" where
  "transformed_then h g ident module source =
     (let g1 = updateModule g module (setSource h source);
          g2 = g1\<lparr>modules := modules g1 @ [module]\<rparr>
      in g2\<lparr>moduleById := (moduleById g2)(ident \<mapsto> module)\<rparr>)"

section \<open>fetchAllDependencies: dynamic imports (lines 609-648)\<close>

datatype DynamicOutcome =
    DynamicDone
  | DynamicFetch FetchStart "string option"

definition setDynamicImportResolution ::
    "Graph \<Rightarrow> ref \<Rightarrow> nat \<Rightarrow> DynamicImportResolution \<Rightarrow> Graph" where
  "setDynamicImportResolution g module index r =
     updateModule g module
       (\<lambda>m. m\<lparr>dynamicImportResolutions := (dynamicImportResolutions m)(index \<mapsto> r)\<rparr>)"

text \<open>
  \<^verbatim>\<open>externalModule.exportsNamespace = true\<close> (line 640) is a property assignment on
  whatever object the variable holds; on a \<^verbatim>\<open>Module\<close> it creates the property.
\<close>

definition setExportsNamespace :: "Graph \<Rightarrow> ref \<Rightarrow> Graph" where
  "setExportsNamespace g r =
     (case heap g r of
        Some (ExternalModuleObj e) \<Rightarrow>
          g\<lparr>heap := (heap g)(r \<mapsto> ExternalModuleObj (e\<lparr>exportsNamespace := True\<rparr>))\<rparr>
      | Some (ModuleObj m) \<Rightarrow>
          g\<lparr>heap := (heap g)(r \<mapsto> ModuleObj (m\<lparr>module_exportsNamespace := True\<rparr>))\<rparr>
      | None \<Rightarrow> g)"

text \<open>
  The callback on the settled \<^verbatim>\<open>resolveDynamicImport\<close> hook. \<^verbatim>\<open>replacement\<close> is
  \<^verbatim>\<open>None\<close> for a nullish result; an empty string is falsy as well.
\<close>

definition resolveDynamicImport_then ::
    "Host \<Rightarrow> Graph \<Rightarrow> ref \<Rightarrow> nat \<Rightarrow> DynamicImportExpression \<Rightarrow> string option
       \<Rightarrow> Graph \<times> DynamicOutcome" where
  "resolveDynamicImport_then h g module index dynamicImportExpression replacement =
     (case replacement of
        None \<Rightarrow>
          (setDynamicImportResolution g module index
             \<lparr>dyn_alias = None, dyn_resolution = NoResolution\<rparr>, DynamicDone)
      | Some r \<Rightarrow>
          if r = [] then
            (setDynamicImportResolution g module index
               \<lparr>dyn_alias = None, dyn_resolution = NoResolution\<rparr>, DynamicDone)
          else
            (let alias' = getAliasName h r
                   (case dynamicImportExpression of
                      StringExpression s \<Rightarrow> Some s | NodeExpression n \<Rightarrow> None)
             in case dynamicImportExpression of
                  NodeExpression n \<Rightarrow>
                    (setDynamicImportResolution g module index
                       \<lparr>dyn_alias = Some alias', dyn_resolution = ReplacementResolution r\<rparr>,
                     DynamicDone)
                | StringExpression s \<Rightarrow>
                    if isExternal (options_external g) r (module_id (theModule g module)) True
                    then
                      (let (externalModule, g1) =
                             (case moduleById g r of
                                None \<Rightarrow>
                                  (let (e, g') = allocate g (ExternalModuleObj (newExternalModule r));
                                       g'' = g'\<lparr>externalModules := externalModules g' @ [e]\<rparr>
                                   in (e, g''\<lparr>moduleById := (moduleById g'')(r \<mapsto> module)\<rparr>))
                              | Some existing \<Rightarrow> (existing, g));
                           g2 = setDynamicImportResolution g1 module index
                                  \<lparr>dyn_alias = Some alias',
                                   dyn_resolution = ObjectResolution externalModule\<rparr>
                       in (setExportsNamespace g2 externalModule, DynamicDone))
                    else
                      (let (g1, started) =
                             fetchModule g r (Some (module_id (theModule g module)))
                       in (g1, DynamicFetch started (Some alias')))))"

text \<open>The continuation of line 642, on the fetched dependency.\<close>

definition dynamicFetched_then :: "Graph \<Rightarrow> ref \<Rightarrow> nat \<Rightarrow> string option \<Rightarrow> ref \<Rightarrow> Graph" where
  "dynamicFetched_then g module index alias' depModule =
     setDynamicImportResolution g module index
       \<lparr>dyn_alias = alias', dyn_resolution = ObjectResolution depModule\<rparr>"

section \<open>fetchAllDependencies: static imports (lines 651-726)\<close>

text \<open>
  What the \<^verbatim>\<open>resolveId\<close> hook settles with: a string, \<^verbatim>\<open>false\<close>, or a nullish
  value. The code tests the value for truthiness, so an empty string counts as
  unresolved.
\<close>

datatype ResolveIdResult =
    IdString string
  | IdFalse
  | IdNullish

fun idTruthy :: "ResolveIdResult \<Rightarrow> bool" where
  "idTruthy (IdString s) = (s \<noteq> [])"
| "idTruthy r = False"

fun idString :: "ResolveIdResult \<Rightarrow> string" where
  "idString (IdString s) = s"
| "idString r = []"

text \<open>
  The first callback (lines 654-662): a pre-populated resolved id, then the external
  predicate, then the hook (\<^verbatim>\<open>None\<close>: the result is awaited).
\<close>

definition resolveStatic :: "Graph \<Rightarrow> ref \<Rightarrow> string \<Rightarrow> Graph \<times> ResolveIdResult option" where
  "resolveStatic g module source =
     (let m = theModule g module
      in if truthyString (resolvedIds m source)
         then (g, Some (IdString (the (resolvedIds m source))))
         else if isExternal (options_external g) source (module_id m) False
         then (g, Some IdFalse)
         else (pluginCall g (ResolveIdHook source (Some (module_id m))), None))"

datatype StaticOutcome =
    StaticDone
  | StaticThrew Failure
  | StaticFetch FetchStart

definition setResolvedId :: "Graph \<Rightarrow> ref \<Rightarrow> string \<Rightarrow> string \<Rightarrow> Graph" where
  "setResolvedId g module source resolved =
     updateModule g module (\<lambda>m. m\<lparr>resolvedIds := (resolvedIds m)(source \<mapsto> resolved)\<rparr>)"

definition updateExternal :: "Graph \<Rightarrow> ref \<Rightarrow> (ExternalModule \<Rightarrow> ExternalModule) \<Rightarrow> Graph" where
  "updateExternal g r f =
     (case heap g r of
        Some (ExternalModuleObj e) \<Rightarrow> g\<lparr>heap := (heap g)(r \<mapsto> ExternalModuleObj (f e))\<rparr>
      | _ \<Rightarrow> g)"

text \<open>
  The loop of lines 715-720 over \<^verbatim>\<open>module.imports\<close>, in enumeration order. A
  declaration with another source leaves the callback (\<^verbatim>\<open>return\<close>), and with it the
  loop.
\<close>

fun traceImports :: "Graph \<Rightarrow> ref \<Rightarrow> string \<Rightarrow> (string \<times> ImportDescription) list \<Rightarrow> Graph" where
  "traceImports g externalModule source [] = g"
| "traceImports g externalModule source ((name, importDeclaration) # rest) =
     (if imp_source importDeclaration \<noteq> source then g
      else traceImports
             (updateExternal g externalModule (traceExport (imp_name importDeclaration)))
             externalModule source rest)"

text \<open>The branch \<^verbatim>\<open>if (isExternal)\<close>, lines 694-720.\<close>

definition importExternal :: "Graph \<Rightarrow> ref \<Rightarrow> string \<Rightarrow> string \<Rightarrow> Graph \<times> StaticOutcome" where
  "importExternal g module source externalId =
     (let g1 = setResolvedId g module source externalId;
          (externalModule, g2) =
             (case moduleById g1 externalId of
                None \<Rightarrow>
                  (let (e, g') = allocate g1 (ExternalModuleObj (newExternalModule externalId));
                       g'' = g'\<lparr>externalModules := externalModules g' @ [e]\<rparr>
                   in (e, g''\<lparr>moduleById := (moduleById g'')(externalId \<mapsto> e)\<rparr>))
              | Some existing \<Rightarrow> (existing, g1))
      in case heap g2 externalModule of
           Some (ExternalModuleObj e) \<Rightarrow>
             (traceImports g2 externalModule source (imports' (theModule g2 module)), StaticDone)
         | _ \<Rightarrow> (g2, StaticThrew (RollupError INVALID_EXTERNAL_ID)))"

definition externalIdOf :: "Host \<Rightarrow> string \<Rightarrow> string \<Rightarrow> ResolveIdResult \<Rightarrow> string" where
  "externalIdOf h importer source resolvedId =
     (if idTruthy resolvedId then idString resolvedId
      else if isRelative h source then resolve h importer ''..'' source
      else source)"

text \<open>
  The second callback (lines 663-725), on the resolved id. The warning of lines 680-690
  names the importer by \<^verbatim>\<open>relativeId(module.id)\<close>.
\<close>

definition resolveId_then ::
    "Host \<Rightarrow> Graph \<Rightarrow> ref \<Rightarrow> string \<Rightarrow> ResolveIdResult \<Rightarrow> Graph \<times> StaticOutcome" where
  "resolveId_then h g module source resolvedId =
     (let importer = module_id (theModule g module);
          externalId = externalIdOf h importer source resolvedId;
          isExt = (resolvedId = IdFalse \<or> isExternal (options_external g) externalId importer True)
      in if \<not> idTruthy resolvedId \<and> \<not> isExt then
           (if isRelative h source then (g, StaticThrew (RollupError UNRESOLVED_IMPORT))
            else
              (let g1 = (if resolvedId \<noteq> IdFalse
                         then warn g (UnresolvedImportWarning source (relativeId h importer))
                         else g)
               in importExternal g1 module source externalId))
         else if isExt then importExternal g module source externalId
         else
           (let g1 = setResolvedId g module source (idString resolvedId);
                (g2, started) = fetchModule g1 (idString resolvedId) (Some importer)
            in (g2, StaticFetch started)))"

section \<open>fetchModule: exportsAll (lines 571-603)\<close>

text \<open>
  The loop of lines 572-576 over the module's own exports, then the merge of each
  re-exported module's \<^verbatim>\<open>exportsAll\<close> (lines 577-601).
\<close>

definition ownExportsAll :: "Module \<Rightarrow> (string \<times> string) list" where
  "ownExportsAll m =
     foldl (\<lambda>all name. if name \<noteq> ''default'' then AList.update name (module_id m) all else all)
       (exportsAll m) (map fst (exports m))"

definition mergeExport :: "ref \<Rightarrow> (string \<times> string) list \<Rightarrow> Graph \<Rightarrow> string \<Rightarrow> Graph" where
  "mergeExport module theirs g name =
     (let m = theModule g module
      in case map_of (exportsAll m) name of
           Some mine \<Rightarrow>
             warn g (NamespaceConflictWarning (module_id m) name
                       [mine, (case map_of theirs name of Some t \<Rightarrow> t | None \<Rightarrow> [])])
         | None \<Rightarrow>
             (case map_of theirs name of
                Some t \<Rightarrow> updateModule g module (\<lambda>m. m\<lparr>exportsAll := AList.update name t (exportsAll m)\<rparr>)
              | None \<Rightarrow> g))"

fun reexportAll :: "Graph \<Rightarrow> ref \<Rightarrow> string list \<Rightarrow> Graph \<times> Failure option" where
  "reexportAll g module [] = (g, None)"
| "reexportAll g module (source # rest) =
     (case (case resolvedIds (theModule g module) source of
              None \<Rightarrow> None | Some ident \<Rightarrow> moduleById g ident) of
        None \<Rightarrow> (g, Some TypeError)
      | Some exportAllModule \<Rightarrow>
          (case heap g exportAllModule of
             Some (ModuleObj em) \<Rightarrow>
               reexportAll
                 (foldl (mergeExport module (exportsAll em)) g (map fst (exportsAll em)))
                 module rest
           | _ \<Rightarrow> reexportAll g module rest))"

definition fetchAllDependencies_then :: "Graph \<Rightarrow> ref \<Rightarrow> Graph \<times> Failure option" where
  "fetchAllDependencies_then g module =
     (let g1 = updateModule g module (\<lambda>m. m\<lparr>exportsAll := ownExportsAll m\<rparr>)
      in reexportAll g1 module (exportAllSources (theModule g1 module)))"

section \<open>The fetch pipeline as a transition system\<close>

text \<open>
  The scheduling is single-threaded and cooperative: each callback of the promise chains
  runs to completion, and callbacks interleave in an order that depends on when the hooks
  settle. A configuration is the graph with the callbacks that are still pending; a step
  runs one pending callback on what its hook settled with. Every interleaving and every
  hook result is a path of the relation. A callback whose promise is rejected is dropped
  without running. A callback that waits for a join of several promises
  (\<^verbatim>\<open>DependenciesTask\<close>, \<^verbatim>\<open>DynamicFetchTask\<close>) may run at any time in the model, which
  only adds behaviours.
\<close>

datatype Task =
    EntryTask string
  | LoadTask string ref "string option"
  | TransformTask string ref "ModuleJSON option"
  | DependenciesTask ref
  | ResolveDynamicTask ref nat DynamicImportExpression
  | DynamicFetchTask ref nat "string option" ref
  | StaticTask ref string
  | ResolveIdTask ref string "ResolveIdResult option"

text \<open>\<^verbatim>\<open>loadModule\<close> (lines 232-252): the hook call, then its callback.\<close>

definition loadModule :: "Graph \<Rightarrow> string \<Rightarrow> Graph" where
  "loadModule g entryName = pluginCall g (ResolveIdHook entryName None)"

definition loadModule_then :: "Graph \<Rightarrow> ResolveIdResult \<Rightarrow> Graph \<times> FetchStart" where
  "loadModule_then g resolved =
     (case resolved of
        IdFalse \<Rightarrow> (g, Threw (RollupError UNRESOLVED_ENTRY))
      | IdNullish \<Rightarrow> (g, Threw (RollupError UNRESOLVED_ENTRY))
      | IdString ident \<Rightarrow> fetchModule g ident None)"

fun fetchTasks :: "string \<Rightarrow> string option \<Rightarrow> FetchStart \<Rightarrow> Task list" where
  "fetchTasks ident importer (Loading module) = [LoadTask ident module importer]"
| "fetchTasks ident importer started = []"

fun fetchedModule :: "FetchStart \<Rightarrow> ref option" where
  "fetchedModule (Loading module) = Some module"
| "fetchedModule (Existing module) = Some module"
| "fetchedModule (Threw e) = None"

text \<open>
  The synchronous part of \<^verbatim>\<open>fetchAllDependencies\<close> (lines 609-612 and 651-653): the
  \<^verbatim>\<open>resolveDynamicImport\<close> hook is invoked for each dynamic import expression, and a
  callback is queued for each import specifier.
\<close>

definition fetchAllDependencies :: "Graph \<Rightarrow> ref \<Rightarrow> Graph \<times> Task list" where
  "fetchAllDependencies g module =
     (let m = theModule g module
      in (foldl (\<lambda>g e. pluginCall g (ResolveDynamicImportHook e (module_id m))) g
            (dynamicImportExpressions m),
          map (\<lambda>(index, e). ResolveDynamicTask module index e)
              (enumerate 0 (dynamicImportExpressions m))
          @ map (StaticTask module) (sources m)))"

inductive step :: "Host \<Rightarrow> Graph \<times> Task list \<Rightarrow> Graph \<times> Task list \<Rightarrow> bool" for h :: Host where
  entry:
    "step h (g, ts) (loadModule g entryName, ts @ [EntryTask entryName])"
| entry_rejected:
    "step h (g, ts1 @ EntryTask entryName # ts2) (g, ts1 @ ts2)"
| entry_resolved:
    "loadModule_then g resolved = (g', started) \<Longrightarrow>
     step h (g, ts1 @ EntryTask entryName # ts2)
            (g', ts1 @ fetchTasks (idString resolved) None started @ ts2)"
| load_failed:
    "fetchModule_loaded ident importer settled = Inl e \<Longrightarrow>
     step h (g, ts1 @ LoadTask ident module importer # ts2) (g, ts1 @ ts2)"
| loaded:
    "fetchModule_loaded ident importer settled = Inr source \<Longrightarrow>
     loaded_then g ident module source = (g', started) \<Longrightarrow>
     step h (g, ts1 @ LoadTask ident module importer # ts2)
            (g', ts1 @ TransformTask ident module
                         (case started of Reused c \<Rightarrow> Some c | Transforming \<Rightarrow> None) # ts2)"
| transform_failed:
    "step h (g, ts1 @ TransformTask ident module None # ts2) (g, ts1 @ ts2)"
| transformed:
    "reused = None \<or> reused = Some source \<Longrightarrow>
     fetchAllDependencies (transformed_then h g ident module source) module = (g', new) \<Longrightarrow>
     step h (g, ts1 @ TransformTask ident module reused # ts2)
            (g', ts1 @ DependenciesTask module # new @ ts2)"
| dynamic_rejected:
    "step h (g, ts1 @ ResolveDynamicTask module index e # ts2) (g, ts1 @ ts2)"
| dynamic_done:
    "resolveDynamicImport_then h g module index e replacement = (g', DynamicDone) \<Longrightarrow>
     step h (g, ts1 @ ResolveDynamicTask module index e # ts2) (g', ts1 @ ts2)"
| dynamic_fetch:
    "resolveDynamicImport_then h g module index e (Some r) = (g', DynamicFetch started a) \<Longrightarrow>
     step h (g, ts1 @ ResolveDynamicTask module index e # ts2)
            (g', ts1 @ fetchTasks r (Some (module_id (theModule g module))) started
                     @ (case fetchedModule started of
                          Some dep \<Rightarrow> [DynamicFetchTask module index a dep] | None \<Rightarrow> [])
                     @ ts2)"
| dynamic_fetch_failed:
    "step h (g, ts1 @ DynamicFetchTask module index a dep # ts2) (g, ts1 @ ts2)"
| dynamic_fetched:
    "step h (g, ts1 @ DynamicFetchTask module index a dep # ts2)
            (dynamicFetched_then g module index a dep, ts1 @ ts2)"
| static_start:
    "resolveStatic g module source = (g', known) \<Longrightarrow>
     step h (g, ts1 @ StaticTask module source # ts2)
            (g', ts1 @ ResolveIdTask module source known # ts2)"
| static_rejected:
    "step h (g, ts1 @ ResolveIdTask module source None # ts2) (g, ts1 @ ts2)"
| static_resolved:
    "known = None \<or> known = Some resolvedId \<Longrightarrow>
     resolveId_then h g module source resolvedId = (g', out) \<Longrightarrow>
     step h (g, ts1 @ ResolveIdTask module source known # ts2)
            (g', ts1 @ (case out of
                          StaticFetch started \<Rightarrow>
                            fetchTasks (idString resolvedId)
                              (Some (module_id (theModule g module))) started
                        | _ \<Rightarrow> [])
                     @ ts2)"
| dependencies_failed:
    "step h (g, ts1 @ DependenciesTask module # ts2) (g, ts1 @ ts2)"
| dependencies_fetched:
    "fetchAllDependencies_then g module = (g', failure) \<Longrightarrow>
     step h (g, ts1 @ DependenciesTask module # ts2) (g', ts1 @ ts2)"

definition reachable :: "Host \<Rightarrow> ExternalOption \<Rightarrow> ModuleJSON list \<Rightarrow> Graph \<times> Task list \<Rightarrow> bool" where
  "reachable h opt cache cfg = (step h)\<^sup>*\<^sup>* (newGraph opt cache, []) cfg"

section \<open>includeMarked (lines 263-281)\<close>

text \<open>
  \<^verbatim>\<open>module.include()\<close> and \<^verbatim>\<open>module.includeAllInBundle()\<close> belong to the AST layer and
  are parameters here. The inclusion state is the set of AST nodes that are included;
  \<^verbatim>\<open>include\<close> updates it and returns whether anything changed. The model records the
  method calls in order. The loop is a \<^verbatim>\<open>do ... while\<close>: not returning is the value
  \<^verbatim>\<open>None\<close>.
\<close>

datatype 'm MethodCall =
    IncludeCall 'm
  | IncludeAllInBundleCall 'm

text \<open>One pass of the \<^verbatim>\<open>for\<close> loop of lines 270-274, threading \<^verbatim>\<open>needsTreeshakingPass\<close>.\<close>

fun treeshakingPass ::
    "('m \<Rightarrow> 'n set \<Rightarrow> 'n set \<times> bool) \<Rightarrow> 'm list \<Rightarrow> 'n set \<Rightarrow> bool \<Rightarrow> 'n set \<times> bool" where
  "treeshakingPass module_include [] s needsTreeshakingPass = (s, needsTreeshakingPass)"
| "treeshakingPass module_include (module # rest) s needsTreeshakingPass =
     (case module_include module s of
        (s', changed) \<Rightarrow>
          treeshakingPass module_include rest s'
            (if changed then True else needsTreeshakingPass))"

partial_function (option) treeshakingLoop ::
    "('m \<Rightarrow> 'n set \<Rightarrow> 'n set \<times> bool) \<Rightarrow> 'm list \<Rightarrow> 'n set \<Rightarrow> 'm MethodCall list \<Rightarrow> nat
       \<Rightarrow> ('n set \<times> 'm MethodCall list \<times> nat) option" where
  "treeshakingLoop module_include orderedModules s calls pass =
     (case treeshakingPass module_include orderedModules s False of
        (s', needsTreeshakingPass) \<Rightarrow>
          if needsTreeshakingPass
          then treeshakingLoop module_include orderedModules s'
                 (calls @ map IncludeCall orderedModules) (pass + 1)
          else Some (s', calls @ map IncludeCall orderedModules, pass + 1))"

definition includeMarked ::
    "bool \<Rightarrow> ('m \<Rightarrow> 'n set \<Rightarrow> 'n set \<times> bool) \<Rightarrow> ('m \<Rightarrow> 'n set \<Rightarrow> 'n set) \<Rightarrow> 'm list \<Rightarrow> 'n set
       \<Rightarrow> ('n set \<times> 'm MethodCall list) option" where
  "includeMarked treeshake module_include includeAllInBundle orderedModules s =
     (if treeshake
      then map_option (\<lambda>(s', calls, pass). (s', calls))
             (treeshakingLoop module_include orderedModules s [] 1)
      else Some (foldl (\<lambda>s module. includeAllInBundle module s) s orderedModules,
                 map IncludeAllInBundleCall orderedModules))"

text \<open>The state after a pass, for the statements about the number of passes.\<close>

definition afterPass :: "('m \<Rightarrow> 'n set \<Rightarrow> 'n set \<times> bool) \<Rightarrow> 'm list \<Rightarrow> 'n set \<Rightarrow> 'n set" where
  "afterPass module_include orderedModules s = fst (treeshakingPass module_include orderedModules s False)"

definition passChanged :: "('m \<Rightarrow> 'n set \<Rightarrow> 'n set \<times> bool) \<Rightarrow> 'm list \<Rightarrow> 'n set \<Rightarrow> bool" where
  "passChanged module_include orderedModules s = snd (treeshakingPass module_include orderedModules s False)"

section \<open>build: the chunks (lines 443-468)\<close>

text \<open>
  A chunk is constructed from a list of modules; the record holds that list and the
  \<^verbatim>\<open>entryModule\<close> that line 447 assigns. What the constructor of \<^verbatim>\<open>Chunk\<close> derives
  from the modules is outside \<^verbatim>\<open>Graph.ts\<close>; \<^verbatim>\<open>chunk.isEmpty\<close> is a parameter, and so is
  \<^verbatim>\<open>Uint8ArrayToHexString\<close> (utils/entryHashing).

  \<^verbatim>\<open>chunkModules\<close> is a dictionary object enumerated with \<^verbatim>\<open>for ... in\<close>. Its keys are
  the hexadecimal strings of 16-byte hashes: none is an array index and none names a
  property of \<^verbatim>\<open>Object.prototype\<close>, so the enumeration follows insertion order and a
  lookup finds own properties only.
\<close>

record Chunk =
  chunk_modules :: "ref list"
  entryModule :: "ref option"

text \<open>
  Modelled from the spec: \<^verbatim>\<open>sortByExecutionOrder\<close> (utils/execution-order) sorts the
  modules of a group by their position in the execution order.
\<close>

definition sortByExecutionOrder :: "Graph \<Rightarrow> ref list \<Rightarrow> ref list" where
  "sortByExecutionOrder g units = sort_key (\<lambda>module. execIndex (theModule g module)) units"

definition addToChunkModules ::
    "(nat list \<Rightarrow> string) \<Rightarrow> Graph \<Rightarrow> (string \<times> ref list) list \<Rightarrow> ref \<Rightarrow> (string \<times> ref list) list" where
  "addToChunkModules Uint8ArrayToHexString g chunkModules module =
     (let entryPointsHashStr = Uint8ArrayToHexString (entryPointsHash (theModule g module))
      in case map_of chunkModules entryPointsHashStr of
           Some curChunk \<Rightarrow> AList.update entryPointsHashStr (curChunk @ [module]) chunkModules
         | None \<Rightarrow> AList.update entryPointsHashStr [module] chunkModules)"

definition generateChunks ::
    "(nat list \<Rightarrow> string) \<Rightarrow> (ref list \<Rightarrow> bool) \<Rightarrow> Graph \<Rightarrow> bool \<Rightarrow> ref list \<Rightarrow> Chunk list" where
  "generateChunks Uint8ArrayToHexString isEmpty g preserveModules orderedModules =
     (if preserveModules then
        map (\<lambda>module.
               \<lparr> chunk_modules = [module],
                 entryModule = (if isEntryPoint (theModule g module) \<or> \<not> isEmpty [module]
                                then Some module else None) \<rparr>)
            orderedModules
      else
        map (\<lambda>(entryHashSum, chunkModulesOrdered).
               \<lparr> chunk_modules = sortByExecutionOrder g chunkModulesOrdered, entryModule = None \<rparr>)
            (foldl (addToChunkModules Uint8ArrayToHexString g) [] orderedModules))"

text \<open>The chunk-colouring key of a module.\<close>

definition entryHashSum :: "(nat list \<Rightarrow> string) \<Rightarrow> Graph \<Rightarrow> ref \<Rightarrow> string" where
  "entryHashSum Uint8ArrayToHexString g module =
     Uint8ArrayToHexString (entryPointsHash (theModule g module))"

section \<open>Invariants of the fetch pipeline\<close>

text \<open>
  The ids on which the load hook was invoked, in order; the store has no object beyond
  \<^verbatim>\<open>nextRef\<close>; every id loaded is registered, and loaded once; no module lists
  \<^verbatim>\<open>default\<close> in \<^verbatim>\<open>exportsAll\<close>; a pending load or transform of an id belongs to the
  module registered under that id.
\<close>

definition loadCalls :: "Graph \<Rightarrow> string list" where
  "loadCalls g = concat (map (\<lambda>c. case c of LoadHook ident \<Rightarrow> [ident] | _ \<Rightarrow> []) (pluginCalls g))"

definition wellFormed :: "Graph \<Rightarrow> bool" where
  "wellFormed g = (\<forall>r. heap g r \<noteq> None \<longrightarrow> r < nextRef g)"

definition noDefault :: "Graph \<Rightarrow> bool" where
  "noDefault g = (\<forall>r m. heap g r = Some (ModuleObj m) \<longrightarrow> ''default'' \<notin> fst ` set (exportsAll m))"

definition loadedOnce :: "Graph \<Rightarrow> bool" where
  "loadedOnce g = (distinct (loadCalls g) \<and> set (loadCalls g) \<subseteq> dom (moduleById g))"

fun registered :: "Graph \<Rightarrow> Task \<Rightarrow> bool" where
  "registered g (LoadTask ident module importer) = (moduleById g ident = Some module)"
| "registered g (TransformTask ident module reused) = (moduleById g ident = Some module)"
| "registered g t = True"

definition invariant :: "Graph \<times> Task list \<Rightarrow> bool" where
  "invariant cfg = (wellFormed (fst cfg) \<and> loadedOnce (fst cfg) \<and> noDefault (fst cfg)
      \<and> (\<forall>t \<in> set (snd cfg). registered (fst cfg) t))"

definition grows :: "Graph \<Rightarrow> Graph \<Rightarrow> bool" where
  "grows g g' =
     (moduleById g \<subseteq>\<^sub>m moduleById g' \<and> (wellFormed g \<longrightarrow> wellFormed g')
      \<and> (loadedOnce g \<longrightarrow> loadedOnce g'))"

definition preserves :: "Graph \<Rightarrow> Graph \<Rightarrow> bool" where
  "preserves g g' = (grows g g' \<and> (noDefault g \<longrightarrow> noDefault g'))"

definition sameExportsAll :: "Graph \<Rightarrow> Graph \<Rightarrow> bool" where
  "sameExportsAll g g' =
     (\<forall>r m'. heap g' r = Some (ModuleObj m')
        \<longrightarrow> (\<exists>m. heap g r = Some (ModuleObj m) \<and> exportsAll m' = exportsAll m))"

section \<open>Auxiliary notions for the statements\<close>


section \<open>A concrete build\<close>

text \<open>
  One entry, \<^verbatim>\<open>main.js\<close>, whose source imports \<^verbatim>\<open>helper\<close> from \<^verbatim>\<open>./local\<close>, the
  default export of \<^verbatim>\<open>lodash\<close> as \<^verbatim>\<open>_\<close>, and \<^verbatim>\<open>ext\<close> dynamically, and exports
  \<^verbatim>\<open>default\<close> and \<^verbatim>\<open>version\<close>; the option \<^verbatim>\<open>external\<close> is the array \<^verbatim>\<open>['ext']\<close>.
  The graphs below are the states of this build after the entry is resolved, after its
  source is loaded, after it is analysed, and after the \<^verbatim>\<open>resolveId\<close> hook is invoked
  for its two import specifiers.
\<close>

definition exampleImporter :: Module where
  "exampleImporter = (newModule ''main.js'')
     \<lparr> sources := [''./local'', ''lodash''],
       imports' := [(''helper'', \<lparr>imp_source = ''./local'', imp_name = ''helper''\<rparr>),
                    (''_'', \<lparr>imp_source = ''lodash'', imp_name = ''default''\<rparr>)],
       exports := [(''default'', ''main''), (''version'', ''version'')],
       dynamicImportExpressions := [StringExpression ''ext''] \<rparr>"

definition exampleHost :: Host where
  "exampleHost =
     \<lparr> relativeId = (\<lambda>ident. if startsWith ident ''/'' then drop 1 ident else ident),
       getAliasName = (\<lambda>replacement expression. replacement),
       isRelative = (\<lambda>source. startsWith source ''.''),
       resolve = (\<lambda>importer up source. importer @ ''/'' @ up @ ''/'' @ source),
       analyse = (\<lambda>source. exampleImporter) \<rparr>"

definition exampleJSON :: ModuleJSON where
  "exampleJSON = \<lparr> json_id = ''main.js'', originalCode = ''import ...'',
                    customTransformCache = False, transformAssets = None \<rparr>"

definition exampleEntry :: Graph where
  "exampleEntry =
     fst (loadModule_then (loadModule (newGraph (ExternalArray [''ext'']) []) ''main.js'')
            (IdString ''main.js''))"

definition exampleLoaded :: Graph where
  "exampleLoaded = fst (loaded_then exampleEntry ''main.js'' 0 (JsString ''import ...''))"

definition exampleAnalysed :: Graph where
  "exampleAnalysed =
     fst (fetchAllDependencies (transformed_then exampleHost exampleLoaded ''main.js'' 0 exampleJSON) 0)"

definition exampleResolving :: Graph where
  "exampleResolving =
     fst (resolveStatic (fst (resolveStatic exampleAnalysed 0 ''./local'')) 0 ''lodash'')"

text \<open>
  The same build after \<^verbatim>\<open>resolveId\<close> has returned \<^verbatim>\<open>false\<close> for \<^verbatim>\<open>lodash\<close>:
  the id is registered to an external module, and \<^verbatim>\<open>fetchModule\<close> was never called
  with it.
\<close>

definition exampleExternal :: Graph where
  "exampleExternal = fst (resolveId_then exampleHost exampleResolving 0 ''lodash'' IdFalse)"

definition exampleExternalTasks :: "Task list" where
  "exampleExternalTasks =
     [DependenciesTask 0, ResolveDynamicTask 0 0 (StringExpression ''ext''),
      ResolveIdTask 0 ''./local'' None]"





text \<open>A warm cache for the same entry, with one transform asset.\<close>

definition exampleCached :: ModuleJSON where
  "exampleCached = \<lparr> json_id = ''main.js'', originalCode = ''import ...'',
                      customTransformCache = False,
                      transformAssets = Some [\<lparr>asset_name = ''logo.svg'', asset_source = ''<svg/>''\<rparr>] \<rparr>"

definition exampleWarm :: Graph where
  "exampleWarm = fst (fetchModule (newGraph ExternalUndefined [exampleCached]) ''main.js'' None)"

definition exampleTasks :: "Task list" where
  "exampleTasks =
     [DependenciesTask 0, ResolveDynamicTask 0 0 (StringExpression ''ext''),
      ResolveIdTask 0 ''./local'' None, ResolveIdTask 0 ''lodash'' None]"

text \<open>
  A tree-shaking run for the statements about \<^verbatim>\<open>includeMarked\<close>: two modules, each with
  one node, included by the first call of \<^verbatim>\<open>include\<close> on the module.
\<close>

definition exampleInclude :: "bool \<Rightarrow> bool set \<Rightarrow> bool set \<times> bool" where
  "exampleInclude module s = (insert module s, module \<notin> s)"

definition exampleIncludeAll :: "bool \<Rightarrow> bool set \<Rightarrow> bool set" where
  "exampleIncludeAll module s = insert module s"

text \<open>
  Three analysed modules for the statements about chunks: \<^verbatim>\<open>a.js\<close> (reference 0) and
  \<^verbatim>\<open>c.js\<close> (reference 2) are reached from the same entry, \<^verbatim>\<open>b.js\<close> (reference 1) from
  another; the execution order is \<^verbatim>\<open>c.js\<close>, \<^verbatim>\<open>b.js\<close>, \<^verbatim>\<open>a.js\<close>.
\<close>

definition exampleHex :: "nat list \<Rightarrow> string" where
  "exampleHex bytes =
     concat (map (\<lambda>b. [''0123456789abcdef'' ! (b div 16 mod 16), ''0123456789abcdef'' ! (b mod 16)]) bytes)"

definition exampleOrdered :: Graph where
  "exampleOrdered = (newGraph ExternalUndefined [])
     \<lparr> heap := [0 \<mapsto> ModuleObj ((newModule ''a.js'')\<lparr>entryPointsHash := [171, 3], execIndex := 2\<rparr>),
                1 \<mapsto> ModuleObj ((newModule ''b.js'')\<lparr>entryPointsHash := [205, 2], execIndex := 1\<rparr>),
                2 \<mapsto> ModuleObj ((newModule ''c.js'')\<lparr>entryPointsHash := [171, 3], execIndex := 0\<rparr>)],
       nextRef := 3,
       moduleById := [''a.js'' \<mapsto> 0, ''b.js'' \<mapsto> 1, ''c.js'' \<mapsto> 2],
       modules := [0, 1, 2] \<rparr>"

section \<open>The operations preserve the invariants\<close>

lemma grows_refl [simp]: "grows g g"
  by (simp add: grows_def)

lemma grows_trans: "grows g g' \<Longrightarrow> grows g' g'' \<Longrightarrow> grows g g''"
  by (auto simp: grows_def intro: map_le_trans)

lemma preserves_refl [simp]: "preserves g g"
  by (simp add: preserves_def)

lemma preserves_trans: "preserves g g' \<Longrightarrow> preserves g' g'' \<Longrightarrow> preserves g g''"
  by (auto simp: preserves_def intro: grows_trans)

lemma updateModule_frame [simp]:
  "options_external (updateModule g r f) = options_external g"
  "nextRef (updateModule g r f) = nextRef g"
  "moduleById (updateModule g r f) = moduleById g"
  "externalModules (updateModule g r f) = externalModules g"
  "modules (updateModule g r f) = modules g"
  "watchFiles (updateModule g r f) = watchFiles g"
  "cachedModules (updateModule g r f) = cachedModules g"
  "warnings (updateModule g r f) = warnings g"
  "pluginCalls (updateModule g r f) = pluginCalls g"
  by (simp_all add: updateModule_def split: option.splits Obj.splits)

lemma updateModule_heap:
  "heap (updateModule g r f) =
     (case heap g r of Some (ModuleObj m) \<Rightarrow> (heap g)(r \<mapsto> ModuleObj (f m)) | _ \<Rightarrow> heap g)"
  by (simp add: updateModule_def split: option.splits Obj.splits)

lemma updateModule_dom [simp]: "dom (heap (updateModule g r f)) = dom (heap g)"
  by (auto simp: updateModule_heap split: option.splits Obj.splits)

lemma updateExternal_frame [simp]:
  "options_external (updateExternal g r f) = options_external g"
  "nextRef (updateExternal g r f) = nextRef g"
  "moduleById (updateExternal g r f) = moduleById g"
  "externalModules (updateExternal g r f) = externalModules g"
  "modules (updateExternal g r f) = modules g"
  "watchFiles (updateExternal g r f) = watchFiles g"
  "cachedModules (updateExternal g r f) = cachedModules g"
  "warnings (updateExternal g r f) = warnings g"
  "pluginCalls (updateExternal g r f) = pluginCalls g"
  by (simp_all add: updateExternal_def split: option.splits Obj.splits)

lemma updateExternal_heap:
  "heap (updateExternal g r f) =
     (case heap g r of Some (ExternalModuleObj e) \<Rightarrow> (heap g)(r \<mapsto> ExternalModuleObj (f e)) | _ \<Rightarrow> heap g)"
  by (simp add: updateExternal_def split: option.splits Obj.splits)

lemma updateExternal_dom [simp]: "dom (heap (updateExternal g r f)) = dom (heap g)"
  by (auto simp: updateExternal_heap split: option.splits Obj.splits)

lemma setExportsNamespace_frame [simp]:
  "options_external (setExportsNamespace g r) = options_external g"
  "nextRef (setExportsNamespace g r) = nextRef g"
  "moduleById (setExportsNamespace g r) = moduleById g"
  "externalModules (setExportsNamespace g r) = externalModules g"
  "modules (setExportsNamespace g r) = modules g"
  "watchFiles (setExportsNamespace g r) = watchFiles g"
  "cachedModules (setExportsNamespace g r) = cachedModules g"
  "warnings (setExportsNamespace g r) = warnings g"
  "pluginCalls (setExportsNamespace g r) = pluginCalls g"
  by (simp_all add: setExportsNamespace_def split: option.splits Obj.splits)

lemma setExportsNamespace_dom [simp]: "dom (heap (setExportsNamespace g r)) = dom (heap g)"
  by (auto simp: setExportsNamespace_def split: option.splits Obj.splits)

lemma warn_frame [simp]:
  "options_external (warn g w) = options_external g"
  "heap (warn g w) = heap g"
  "nextRef (warn g w) = nextRef g"
  "moduleById (warn g w) = moduleById g"
  "externalModules (warn g w) = externalModules g"
  "modules (warn g w) = modules g"
  "watchFiles (warn g w) = watchFiles g"
  "cachedModules (warn g w) = cachedModules g"
  "warnings (warn g w) = warnings g @ [w]"
  "pluginCalls (warn g w) = pluginCalls g"
  by (simp_all add: warn_def)

lemma pluginCall_frame [simp]:
  "options_external (pluginCall g c) = options_external g"
  "heap (pluginCall g c) = heap g"
  "nextRef (pluginCall g c) = nextRef g"
  "moduleById (pluginCall g c) = moduleById g"
  "externalModules (pluginCall g c) = externalModules g"
  "modules (pluginCall g c) = modules g"
  "watchFiles (pluginCall g c) = watchFiles g"
  "cachedModules (pluginCall g c) = cachedModules g"
  "warnings (pluginCall g c) = warnings g"
  "pluginCalls (pluginCall g c) = pluginCalls g @ [c]"
  "pluginViews (pluginCall g c) = pluginViews g @ [(moduleById g, watchFiles g)]"
  by (simp_all add: pluginCall_def)

lemma growsI:
  "moduleById g' = moduleById g \<Longrightarrow> nextRef g' = nextRef g \<Longrightarrow> dom (heap g') = dom (heap g)
   \<Longrightarrow> loadCalls g' = loadCalls g \<Longrightarrow> grows g g'"
  by (auto simp: grows_def wellFormed_def loadedOnce_def dom_def set_eq_iff)

lemma noDefault_same: "sameExportsAll g g' \<Longrightarrow> noDefault g \<Longrightarrow> noDefault g'"
  unfolding noDefault_def sameExportsAll_def by metis

lemma preservesI:
  "moduleById g' = moduleById g \<Longrightarrow> nextRef g' = nextRef g \<Longrightarrow> dom (heap g') = dom (heap g)
   \<Longrightarrow> loadCalls g' = loadCalls g \<Longrightarrow> sameExportsAll g g' \<Longrightarrow> preserves g g'"
  by (simp add: preserves_def growsI noDefault_same)

lemma sameExportsAll_heap [simp]: "heap g' = heap g \<Longrightarrow> sameExportsAll g g'"
  by (simp add: sameExportsAll_def)

lemma sameExportsAll_updateModule:
  "(\<And>m. exportsAll (f m) = exportsAll m) \<Longrightarrow> sameExportsAll g (updateModule g r f)"
  by (auto simp: sameExportsAll_def updateModule_heap split: option.splits Obj.splits if_splits)

lemma sameExportsAll_updateExternal [simp]: "sameExportsAll g (updateExternal g r f)"
  by (auto simp: sameExportsAll_def updateExternal_heap split: option.splits Obj.splits if_splits)

lemma sameExportsAll_setExportsNamespace [simp]: "sameExportsAll g (setExportsNamespace g r)"
  by (auto simp: sameExportsAll_def setExportsNamespace_def split: option.splits Obj.splits if_splits)

lemma loadCalls_frame [simp]:
  "loadCalls (updateModule g r f) = loadCalls g"
  "loadCalls (updateExternal g r e) = loadCalls g"
  "loadCalls (setExportsNamespace g r) = loadCalls g"
  "loadCalls (warn g w) = loadCalls g"
  by (simp_all add: loadCalls_def)

lemma loadCalls_pluginCall:
  "loadCalls (pluginCall g c) = loadCalls g @ (case c of LoadHook ident \<Rightarrow> [ident] | _ \<Rightarrow> [])"
  by (simp add: loadCalls_def)

lemma preserves_updateModule:
  "(\<And>m. exportsAll (f m) = exportsAll m) \<Longrightarrow> preserves g (updateModule g r f)"
  by (rule preservesI) (simp_all add: sameExportsAll_updateModule)

lemma preserves_updateExternal [simp]: "preserves g (updateExternal g r f)"
  by (rule preservesI) simp_all

lemma preserves_setExportsNamespace [simp]: "preserves g (setExportsNamespace g r)"
  by (rule preservesI) simp_all

lemma preserves_warn [simp]: "preserves g (warn g w)"
  by (rule preservesI) simp_all

lemma preserves_pluginCall: "(\<And>ident. c \<noteq> LoadHook ident) \<Longrightarrow> preserves g (pluginCall g c)"
  by (rule preservesI) (auto simp: loadCalls_pluginCall split: PluginCall.splits)

lemma preserves_fetchModule: "preserves g (fst (fetchModule g ident importer))"
proof (cases "moduleById g ident")
  case None
  then show ?thesis
    by (auto simp: fetchModule_def preserves_def grows_def allocate_def wellFormed_def
          loadedOnce_def loadCalls_def map_le_def less_Suc_eq pluginCall_def Let_def
          noDefault_def newModule_def)
next
  case (Some r)
  then show ?thesis by (simp add: fetchModule_def)
qed

lemma registered_fetchModule:
  "fetchModule g ident importer = (g', started) \<Longrightarrow> t \<in> set (fetchTasks ident importer started)
   \<Longrightarrow> registered g' t"
  by (cases "moduleById g ident")
     (auto simp: fetchModule_def allocate_def Let_def pluginCall_def split: if_splits)

lemma foldl_preserves:
  assumes "\<And>g x. preserves g (f g x)"
  shows "preserves g (foldl f g xs)"
proof (induction xs arbitrary: g)
  case Nil
  show ?case by simp
next
  case (Cons x xs)
  show ?case using assms [of g x] Cons.IH [of "f g x"] by (auto intro: preserves_trans)
qed

lemma preserves_emitAsset: "preserves g (emitAsset g a)"
  by (simp add: emitAsset_def preserves_pluginCall)

lemma preserves_loaded_then: "preserves g (fst (loaded_then g ident module source))"
  by (auto simp: loaded_then_def Let_def preserves_pluginCall foldl_preserves preserves_emitAsset
           split: option.splits)

lemma sameExportsAll_transformed_then: "sameExportsAll g (transformed_then h g ident module source)"
  by (auto simp: sameExportsAll_def transformed_then_def Let_def updateModule_heap setSource_def
        split: option.splits Obj.splits if_splits)

lemma preserves_transformed_then:
  assumes "moduleById g ident = Some module"
  shows "preserves g (transformed_then h g ident module source)"
proof -
  have "(moduleById g)(ident \<mapsto> module) = moduleById g"
    using assms by (auto simp: fun_upd_idem_iff)
  then show ?thesis
    by (intro preservesI sameExportsAll_transformed_then)
       (simp_all add: transformed_then_def Let_def loadCalls_def)
qed

lemma preserves_fetchAllDependencies: "preserves g (fst (fetchAllDependencies g module))"
  by (simp add: fetchAllDependencies_def Let_def foldl_preserves preserves_pluginCall)

lemma preserves_setDynamicImportResolution [simp]:
  "preserves g (setDynamicImportResolution g module index r)"
  by (simp add: setDynamicImportResolution_def preserves_updateModule)

lemma preserves_setResolvedId [simp]: "preserves g (setResolvedId g module source r)"
  by (simp add: setResolvedId_def preserves_updateModule)

lemma preserves_resolveDynamicImport_then:
  "preserves g (fst (resolveDynamicImport_then h g module index e replacement))"
proof -
  have ext: "preserves g (setExportsNamespace (setDynamicImportResolution g1 module index d) x)"
    if "preserves g g1" for g1 d x
    using that by (blast intro: preserves_trans preserves_setDynamicImportResolution
                      preserves_setExportsNamespace)
  have fresh: "preserves g ((snd (allocate g (ExternalModuleObj x)))\<lparr>externalModules := xs,
                  moduleById := (moduleById g)(k \<mapsto> r)\<rparr>)"
    if "moduleById g k = None" for x xs k r
    using that
    by (auto simp: preserves_def grows_def allocate_def wellFormed_def loadedOnce_def
          loadCalls_def map_le_def less_Suc_eq noDefault_def)
  show ?thesis
    by (auto simp: resolveDynamicImport_then_def Let_def allocate_def split_beta
          intro!: ext fresh [unfolded allocate_def, simplified] preserves_fetchModule
          split: option.splits DynamicImportExpression.splits)
qed

lemma preserves_dynamicFetched_then: "preserves g (dynamicFetched_then g module index a dep)"
  by (simp add: dynamicFetched_then_def)

lemma preserves_resolveStatic: "preserves g (fst (resolveStatic g module source))"
  by (simp add: resolveStatic_def Let_def preserves_pluginCall)

lemma preserves_traceImports: "preserves g (traceImports g e source decls)"
proof (induction decls arbitrary: g)
  case Nil
  show ?case by simp
next
  case (Cons d decls)
  obtain name decl where d: "d = (name, decl)" by (cases d)
  show ?case
    using Cons.IH [of "updateExternal g e (traceExport (imp_name decl))"]
    by (auto simp: d intro: preserves_trans [OF preserves_updateExternal])
qed

lemma preserves_importExternal: "preserves g (fst (importExternal g module source externalId))"
proof -
  let ?g1 = "setResolvedId g module source externalId"
  have g1: "preserves g ?g1" by simp
  have fresh: "preserves ?g1 ((snd (allocate ?g1 (ExternalModuleObj x)))\<lparr>externalModules := xs,
                  moduleById := (moduleById ?g1)(k \<mapsto> r)\<rparr>)"
    if "moduleById ?g1 k = None" for x xs k r
    using that
    by (auto simp: preserves_def grows_def allocate_def wellFormed_def loadedOnce_def
          loadCalls_def map_le_def less_Suc_eq noDefault_def)
  have "preserves ?g1 (fst (importExternal g module source externalId))"
    by (auto simp: importExternal_def Let_def allocate_def split_beta
          intro!: fresh [unfolded allocate_def, simplified]
                  preserves_trans [OF _ preserves_traceImports]
          split: option.splits Obj.splits)
  with g1 show ?thesis by (rule preserves_trans)
qed

lemma preserves_resolveId_then: "preserves g (fst (resolveId_then h g module source resolvedId))"
  by (auto simp: resolveId_then_def Let_def split_beta
        intro: preserves_importExternal preserves_trans [OF preserves_warn preserves_importExternal]
               preserves_trans [OF preserves_setResolvedId preserves_fetchModule])

lemma grows_updateModule [simp]: "grows g (updateModule g r f)"
  by (rule growsI) simp_all

lemma noDefault_updateModule:
  assumes "noDefault g"
    and "\<And>m. ''default'' \<notin> fst ` set (exportsAll m) \<Longrightarrow> ''default'' \<notin> fst ` set (exportsAll (f m))"
  shows "noDefault (updateModule g r f)"
  unfolding noDefault_def
proof (intro allI impI)
  fix r' m'
  assume h: "heap (updateModule g r f) r' = Some (ModuleObj m')"
  show "''default'' \<notin> fst ` set (exportsAll m')"
  proof (cases "r' = r \<and> (\<exists>m. heap g r = Some (ModuleObj m))")
    case True
    then obtain m where m: "heap g r = Some (ModuleObj m)" by blast
    with True h have "m' = f m" by (simp add: updateModule_heap)
    moreover have "''default'' \<notin> fst ` set (exportsAll m)"
      using assms(1) m by (simp add: noDefault_def)
    ultimately show ?thesis using assms(2) [of m] by simp
  next
    case False
    then have "heap g r' = Some (ModuleObj m')"
      using h by (auto simp: updateModule_heap split: option.splits Obj.splits if_splits)
    then show ?thesis using assms(1) by (simp add: noDefault_def)
  qed
qed

lemma grows_mergeExport: "grows g (mergeExport module theirs g name)"
  by (auto simp: mergeExport_def Let_def intro: growsI split: option.splits)

lemma noDefault_mergeExport:
  assumes "noDefault g" "''default'' \<notin> fst ` set theirs"
  shows "noDefault (mergeExport module theirs g name)"
proof (cases "map_of theirs name")
  case None
  then show ?thesis
    using assms(1) by (auto simp: mergeExport_def Let_def noDefault_def split: option.splits)
next
  case (Some t)
  then have "name \<noteq> ''default''"
    using assms(2) by (metis map_of_eq_None_iff option.distinct(1))
  then have "noDefault (updateModule g module (\<lambda>m. m\<lparr>exportsAll := AList.update name t (exportsAll m)\<rparr>))"
    by (intro noDefault_updateModule assms(1)) (simp add: dom_update)
  then show ?thesis
    using Some assms(1) by (auto simp: mergeExport_def Let_def noDefault_def split: option.splits)
qed

lemma grows_foldl_mergeExport: "grows g (foldl (mergeExport module theirs) g names)"
proof (induction names arbitrary: g)
  case Nil
  show ?case by simp
next
  case (Cons n names)
  show ?case using grows_trans [OF grows_mergeExport Cons.IH] by simp
qed

lemma noDefault_foldl_mergeExport:
  "noDefault g \<Longrightarrow> ''default'' \<notin> fst ` set theirs
   \<Longrightarrow> noDefault (foldl (mergeExport module theirs) g names)"
  by (induction names arbitrary: g) (simp_all add: noDefault_mergeExport)

lemma grows_reexportAll: "grows g (fst (reexportAll g module srcs))"
proof (induction srcs arbitrary: g)
  case Nil
  show ?case by simp
next
  case (Cons source srcs)
  show ?case
    by (auto split: option.splits Obj.splits
          intro: Cons.IH grows_trans [OF grows_foldl_mergeExport Cons.IH])
qed

lemma noDefault_reexportAll: "noDefault g \<Longrightarrow> noDefault (fst (reexportAll g module srcs))"
proof (induction srcs arbitrary: g)
  case Nil
  then show ?case by simp
next
  case (Cons source srcs)
  have "noDefault (foldl (mergeExport module (exportsAll em)) g names)"
    if "heap g r = Some (ModuleObj em)" for r em names
    using that Cons.prems by (intro noDefault_foldl_mergeExport) (auto simp: noDefault_def)
  then show ?case
    using Cons.prems by (auto split: option.splits Obj.splits intro: Cons.IH)
qed

lemma ownExportsAll_keys:
  "fst ` set (ownExportsAll m) = fst ` set (exportsAll m) \<union> (fst ` set (exports m) - {''default''})"
proof -
  have k: "fst ` set (foldl (\<lambda>all name. if name \<noteq> ''default'' then AList.update name v all else all) acc names)
        = fst ` set acc \<union> (set names - {''default''})" for v acc names
    by (induction names arbitrary: acc) (auto simp: dom_update)
  show ?thesis
    using k [of "module_id m" "exportsAll m" "map fst (exports m)"]
    by (simp add: ownExportsAll_def)
qed

lemma preserves_fetchAllDependencies_then: "preserves g (fst (fetchAllDependencies_then g module))"
  unfolding preserves_def
proof (intro conjI impI)
  show "grows g (fst (fetchAllDependencies_then g module))"
    by (auto simp: fetchAllDependencies_then_def Let_def
          intro: grows_trans [OF grows_updateModule grows_reexportAll])
  assume "noDefault g"
  then have "noDefault (updateModule g module (\<lambda>m. m\<lparr>exportsAll := ownExportsAll m\<rparr>))"
    by (rule noDefault_updateModule) (simp add: ownExportsAll_keys)
  then show "noDefault (fst (fetchAllDependencies_then g module))"
    by (simp add: fetchAllDependencies_then_def Let_def noDefault_reexportAll)
qed

lemma preserves_loadModule: "preserves g (loadModule g entryName)"
  by (simp add: loadModule_def preserves_pluginCall)

lemma preserves_loadModule_then: "preserves g (fst (loadModule_then g resolved))"
  by (auto simp: loadModule_then_def preserves_fetchModule split: ResolveIdResult.splits)

lemma registered_mono: "moduleById g \<subseteq>\<^sub>m moduleById g' \<Longrightarrow> registered g t \<Longrightarrow> registered g' t"
  by (cases t) (auto simp: map_le_def dom_def)

lemma invariant_preserved:
  assumes "invariant (g, ts)" "preserves g g'"
    and "\<And>t. t \<in> set ts' \<Longrightarrow> t \<in> set ts \<or> registered g' t"
  shows "invariant (g', ts')"
  using assms by (auto simp: invariant_def preserves_def grows_def dest: registered_mono)

lemma registered_fetchAllDependencies:
  "t \<in> set (snd (fetchAllDependencies g module)) \<Longrightarrow> registered g' t"
  by (auto simp: fetchAllDependencies_def Let_def)

lemma step_case:
  assumes "invariant (g, ts)" "preserves g g'"
    and "\<forall>t \<in> set ts'. t \<in> set ts \<or> registered g' t"
  shows "preserves (fst (g, ts)) (fst (g', ts')) \<and> invariant (g', ts')"
  using assms invariant_preserved [of g ts g' ts'] by auto

lemma step_preserves:
  assumes "step h cfg cfg'" "invariant cfg"
  shows "preserves (fst cfg) (fst cfg') \<and> invariant cfg'"
  using assms
proof (induction rule: step.induct)
  case (entry g ts entryName)
  show ?case by (rule step_case [OF entry preserves_loadModule]) auto
next
  case (entry_rejected g ts1 entryName ts2)
  show ?case by (rule step_case [OF entry_rejected preserves_refl]) auto
next
  case (entry_resolved g resolved g' started ts1 entryName ts2)
  have p: "preserves g g'"
    using preserves_loadModule_then [of g resolved] entry_resolved.hyps by simp
  have "registered g' t" if "t \<in> set (fetchTasks (idString resolved) None started)" for t
    using that entry_resolved.hyps
    by (cases resolved) (auto simp: loadModule_then_def dest: registered_fetchModule)
  then show ?case by (intro step_case [OF entry_resolved.prems p]) auto
next
  case (load_failed ident importer settled e g ts1 module ts2)
  show ?case by (rule step_case [OF load_failed.prems preserves_refl]) auto
next
  case (loaded ident importer settled source g module g' started ts1 ts2)
  have p: "preserves g g'" using preserves_loaded_then [of g ident module source] loaded.hyps by simp
  have r: "moduleById g ident = Some module" using loaded.prems by (simp add: invariant_def)
  have "registered g' (TransformTask ident module x)" for x
    using p r by (auto simp: preserves_def grows_def map_le_def dom_def)
  then show ?case by (intro step_case [OF loaded.prems p]) auto
next
  case (transform_failed g ts1 ident module ts2)
  show ?case by (rule step_case [OF transform_failed preserves_refl]) auto
next
  case (transformed reused source g ident module g' new ts1 ts2)
  have r: "moduleById g ident = Some module" using transformed.prems by (simp add: invariant_def)
  have p: "preserves g g'"
    using preserves_trans [OF preserves_transformed_then [OF r, of h source]
             preserves_fetchAllDependencies [of _ module]] transformed.hyps by simp
  have "registered g' t" if "t \<in> set new" for t
    using that transformed.hyps(2)
      registered_fetchAllDependencies [of t "transformed_then h g ident module source" module g']
    by simp
  then show ?case by (intro step_case [OF transformed.prems p]) auto
next
  case (dynamic_rejected g ts1 module index e ts2)
  show ?case by (rule step_case [OF dynamic_rejected preserves_refl]) auto
next
  case (dynamic_done g module index e replacement g' ts1 ts2)
  have p: "preserves g g'"
    using preserves_resolveDynamicImport_then [of g h module index e replacement] dynamic_done.hyps
    by simp
  show ?case by (rule step_case [OF dynamic_done.prems p]) auto
next
  case (dynamic_fetch g module index e r g' started a ts1 ts2)
  have p: "preserves g g'"
    using preserves_resolveDynamicImport_then [of g h module index e "Some r"] dynamic_fetch.hyps
    by simp
  have f: "fetchModule g r (Some (module_id (theModule g module))) = (g', started)"
    using dynamic_fetch.hyps
    by (auto simp: resolveDynamicImport_then_def Let_def split_beta
          split: if_splits DynamicImportExpression.splits)
  have "registered g' t"
    if "t \<in> set (fetchTasks r (Some (module_id (theModule g module))) started)" for t
    using f that by (rule registered_fetchModule)
  then show ?case
    by (intro step_case [OF dynamic_fetch.prems p]) (auto split: option.splits)
next
  case (dynamic_fetch_failed g ts1 module index a dep ts2)
  show ?case by (rule step_case [OF dynamic_fetch_failed preserves_refl]) auto
next
  case (dynamic_fetched g ts1 module index a dep ts2)
  show ?case by (rule step_case [OF dynamic_fetched preserves_dynamicFetched_then]) auto
next
  case (static_start g module source g' known ts1 ts2)
  have p: "preserves g g'" using preserves_resolveStatic [of g module source] static_start.hyps by simp
  show ?case by (rule step_case [OF static_start.prems p]) auto
next
  case (static_rejected g ts1 module source ts2)
  show ?case by (rule step_case [OF static_rejected preserves_refl]) auto
next
  case (static_resolved known resolvedId g module source g' out ts1 ts2)
  have p: "preserves g g'"
    using preserves_resolveId_then [of g h module source resolvedId] static_resolved.hyps by simp
  have "registered g' t"
    if "out = StaticFetch started"
       "t \<in> set (fetchTasks (idString resolvedId) (Some (module_id (theModule g module))) started)"
    for t started
  proof -
    have "fetchModule (setResolvedId g module source (idString resolvedId)) (idString resolvedId)
            (Some (module_id (theModule g module))) = (g', started)"
      using static_resolved.hyps that(1)
      by (auto simp: resolveId_then_def Let_def split_beta importExternal_def
            split: if_splits option.splits Obj.splits)
    then show ?thesis using that(2) by (rule registered_fetchModule)
  qed
  then show ?case
    by (intro step_case [OF static_resolved.prems p]) (auto split: StaticOutcome.splits)
next
  case (dependencies_failed g ts1 module ts2)
  show ?case by (rule step_case [OF dependencies_failed preserves_refl]) auto
next
  case (dependencies_fetched g module g' failure ts1 ts2)
  have p: "preserves g g'"
    using preserves_fetchAllDependencies_then [of g module] dependencies_fetched.hyps by simp
  show ?case by (rule step_case [OF dependencies_fetched.prems p]) auto
qed

section \<open>Properties of the external classifier\<close>

lemma startsWith_NUL_iff: "startsWith s NUL = (\<exists>t. s = CHR 0x00 # t)"
  by (cases s) (simp_all add: startsWith_def NUL_def)

text \<open>
  C4 (as amended). When \<^verbatim>\<open>options.external\<close> is a function, an id that begins with
  \<^verbatim>\<open>\0\<close> is never external: the user's function is not even consulted. When it is an
  array, the classifier is plain membership, so an id is external exactly when the array
  lists it, whatever its first character.
\<close>

theorem isExternal_nul_guard_function_only:
  "(startsWith ident NUL \<longrightarrow> \<not> isExternal (ExternalFunction external) ident parentId isResolved)
   \<and> isExternal (ExternalArray ids) ident parentId isResolved = (ident \<in> set ids)"
  by simp

theorem isExternal_nul_guard_function_only_witness:
  "startsWith (CHR 0x00 # ''virtual'') NUL
   \<and> \<not> isExternal (ExternalFunction (\<lambda>i p r. True)) (CHR 0x00 # ''virtual'') ''main.js'' True
   \<and> isExternal (ExternalArray [''lodash'']) ''lodash'' ''main.js'' True"
  using isExternal_nul_guard_function_only
    [of "CHR 0x00 # ''virtual''" "\<lambda>i p r. True" "''main.js''" True "[''lodash'']"]
    isExternal_nul_guard_function_only
    [of "''lodash''" "\<lambda>i p r. True" "''main.js''" True "[''lodash'']"]
  by (simp add: startsWith_NUL_iff)

text \<open>
  C4 as stated fails for the array form: an id beginning with \<^verbatim>\<open>\0\<close> that the array
  lists is classified external.
\<close>

theorem isExternal_nul_array_counterexample:
  "startsWith (CHR 0x00 # ''virtual'') NUL
   \<and> isExternal (ExternalArray [CHR 0x00 # ''virtual'']) (CHR 0x00 # ''virtual'') ''main.js'' True"
  by (simp add: startsWith_NUL_iff)

section \<open>Properties of the load validation\<close>

lemma typeof_string_iff: "(typeof v = ''string'') = (\<exists>s. v = JsString s)"
  by (cases v) simp_all

lemma load_then_accepted: "load_then source = (if acceptedSource source then Inr source else Inl (RollupError BAD_LOADER))"
proof (cases source)
  case (JsObject props)
  then show ?thesis
    by (cases "map_of props ''code''")
       (auto simp: load_then_def acceptedSource_def typeof_string_iff)
qed (simp_all add: load_then_def acceptedSource_def)

lemma hookFirst_skips_nullish:
  "\<forall>r \<in> set skipped. nullish r \<Longrightarrow> hookFirst (map Fulfilled skipped @ rest) = hookFirst rest"
  by (induction skipped) simp_all

lemma nullish_not_accepted: "nullish v \<Longrightarrow> \<not> acceptedSource v"
  by (cases v) (simp_all add: acceptedSource_def)

lemma hookFirst_load_single:
  "hookFirst_load [Fulfilled result] disk =
     (if nullish result
      then (case disk of Fulfilled contents \<Rightarrow> Fulfilled (JsString contents)
                       | Rejected message \<Rightarrow> Rejected message)
      else Fulfilled result)"
  by (cases disk) (simp_all add: hookFirst_load_def)

text \<open>
  C5. The load hook of a plugin settles with \<open>result\<close>; the plugin driver passes on the
  first result that is not nullish, and the host's disk read comes last. \<^verbatim>\<open>fetchModule\<close>
  fails with \<^verbatim>\<open>BAD_LOADER\<close> exactly when \<open>result\<close> is neither a string, nor an object
  with a string \<^verbatim>\<open>code\<close>, nor nullish. For a nullish \<open>result\<close> the outcome is that of
  the disk read: the contents of the file as the source, or the failure
  \<^verbatim>\<open>Could not load\<close>, never \<^verbatim>\<open>BAD_LOADER\<close>. The same holds behind any number of
  plugins whose hooks returned nullish values.
\<close>

theorem load_hook_BAD_LOADER_iff:
  "((fetchModule_loaded ident importer (hookFirst_load [Fulfilled result] disk)
       = Inl (RollupError BAD_LOADER))
      = (\<not> acceptedSource result \<and> \<not> nullish result))
   \<and> (nullish result \<longrightarrow>
         fetchModule_loaded ident importer (hookFirst_load [Fulfilled result] disk)
           = (case disk of
                Fulfilled contents \<Rightarrow> Inr (JsString contents)
              | Rejected message \<Rightarrow> Inl (JsError (couldNotLoad ident importer message))))
   \<and> ((\<forall>r \<in> set skipped. nullish r) \<and> \<not> nullish result \<longrightarrow>
         fetchModule_loaded ident importer
             (hookFirst_load (map Fulfilled skipped @ Fulfilled result # rest) disk)
           = (if acceptedSource result then Inr result else Inl (RollupError BAD_LOADER)))
   \<and> ((\<forall>r \<in> set skipped. nullish r) \<longrightarrow>
         fetchModule_loaded ident importer (hookFirst_load (map Fulfilled skipped) disk)
           = (case disk of
                Fulfilled contents \<Rightarrow> Inr (JsString contents)
              | Rejected message \<Rightarrow> Inl (JsError (couldNotLoad ident importer message))))"
proof (intro conjI impI)
  have d: "fetchModule_loaded ident importer
             (case disk of Fulfilled contents \<Rightarrow> Fulfilled (JsString contents)
                         | Rejected message \<Rightarrow> Rejected message)
           = (case disk of
                Fulfilled contents \<Rightarrow> Inr (JsString contents)
              | Rejected message \<Rightarrow> Inl (JsError (couldNotLoad ident importer message)))"
    by (cases disk) (simp_all add: fetchModule_loaded_def load_then_def)
  have a: "fetchModule_loaded ident importer (Fulfilled result)
           = (if acceptedSource result then Inr result else Inl (RollupError BAD_LOADER))"
    by (simp add: fetchModule_loaded_def load_then_accepted)
  show "(fetchModule_loaded ident importer (hookFirst_load [Fulfilled result] disk)
           = Inl (RollupError BAD_LOADER))
        = (\<not> acceptedSource result \<and> \<not> nullish result)"
  proof (cases "nullish result")
    case True
    then show ?thesis
      by (cases disk) (simp_all add: hookFirst_load_single fetchModule_loaded_def load_then_def)
  next
    case False
    then show ?thesis by (simp add: hookFirst_load_single a)
  qed
  {
    assume "nullish result"
    then show "fetchModule_loaded ident importer (hookFirst_load [Fulfilled result] disk)
           = (case disk of
                Fulfilled contents \<Rightarrow> Inr (JsString contents)
              | Rejected message \<Rightarrow> Inl (JsError (couldNotLoad ident importer message)))"
      by (simp add: hookFirst_load_single d)
  }
  {
    assume s: "(\<forall>r \<in> set skipped. nullish r) \<and> \<not> nullish result"
    then have "hookFirst_load (map Fulfilled skipped @ Fulfilled result # rest) disk = Fulfilled result"
      using hookFirst_skips_nullish [of skipped] by (simp add: hookFirst_load_def)
    then show "fetchModule_loaded ident importer
             (hookFirst_load (map Fulfilled skipped @ Fulfilled result # rest) disk)
           = (if acceptedSource result then Inr result else Inl (RollupError BAD_LOADER))"
      by (simp add: a)
  }
  {
    assume "\<forall>r \<in> set skipped. nullish r"
    then have "hookFirst_load (map Fulfilled skipped) disk
                 = (case disk of Fulfilled contents \<Rightarrow> Fulfilled (JsString contents)
                               | Rejected message \<Rightarrow> Rejected message)"
      using hookFirst_skips_nullish [of skipped] by (cases disk) (simp_all add: hookFirst_load_def)
    then show "fetchModule_loaded ident importer (hookFirst_load (map Fulfilled skipped) disk)
           = (case disk of
                Fulfilled contents \<Rightarrow> Inr (JsString contents)
              | Rejected message \<Rightarrow> Inl (JsError (couldNotLoad ident importer message)))"
      by (simp add: d)
  }
qed

theorem load_hook_BAD_LOADER_iff_witness:
  "fetchModule_loaded ''main.js'' None (hookFirst_load [Fulfilled JsNull] (Fulfilled ''export {}''))
     = Inr (JsString ''export {}'')
   \<and> fetchModule_loaded ''main.js'' None (hookFirst_load [Fulfilled JsUndefined] (Rejected ''ENOENT''))
     = Inl (JsError ''Could not load main.js: ENOENT'')
   \<and> fetchModule_loaded ''main.js'' None (hookFirst_load [Fulfilled (JsNumber 42)] (Fulfilled ''export {}''))
     = Inl (RollupError BAD_LOADER)
   \<and> fetchModule_loaded ''main.js'' None
       (hookFirst_load [Fulfilled JsNull, Fulfilled JsUndefined, Fulfilled (JsBoolean False),
                        Fulfilled (JsString ''late'')] (Fulfilled ''export {}''))
     = Inl (RollupError BAD_LOADER)
   \<and> fetchModule_loaded ''main.js'' None
       (hookFirst_load [Fulfilled JsNull, Fulfilled (JsObject [(''code'', JsString ''x'')])]
          (Fulfilled ''export {}''))
     = Inr (JsObject [(''code'', JsString ''x'')])"
  using load_hook_BAD_LOADER_iff [of "''main.js''" None JsNull "Fulfilled ''export {}''" "[]" "[]"]
        load_hook_BAD_LOADER_iff [of "''main.js''" None JsUndefined "Rejected ''ENOENT''" "[]" "[]"]
        load_hook_BAD_LOADER_iff [of "''main.js''" None "JsNumber 42" "Fulfilled ''export {}''" "[]" "[]"]
        load_hook_BAD_LOADER_iff
          [of "''main.js''" None "JsBoolean False" "Fulfilled ''export {}''" "[JsNull, JsUndefined]"
              "[Fulfilled (JsString ''late'')]"]
        load_hook_BAD_LOADER_iff
          [of "''main.js''" None "JsObject [(''code'', JsString ''x'')]" "Fulfilled ''export {}''"
              "[JsNull]" "[]"]
  by (simp add: acceptedSource_def couldNotLoad_def truthyString_def)

section \<open>Reachable states\<close>

lemma steps_preserve:
  "(step h)\<^sup>*\<^sup>* cfg cfg' \<Longrightarrow> invariant cfg \<Longrightarrow> preserves (fst cfg) (fst cfg') \<and> invariant cfg'"
proof (induction rule: rtranclp_induct)
  case base
  then show ?case by simp
next
  case (step y z)
  then show ?case using step_preserves [of h y z] by (auto intro: preserves_trans)
qed

lemma invariant_newGraph: "invariant (newGraph opt cache, [])"
  by (simp add: invariant_def newGraph_def wellFormed_def loadedOnce_def noDefault_def loadCalls_def)

lemma reachable_invariant: "reachable h opt cache cfg \<Longrightarrow> invariant cfg"
  unfolding reachable_def using steps_preserve [OF _ invariant_newGraph] by blast

lemma reachable_stable:
  assumes "reachable h opt cache cfg" "(step h)\<^sup>*\<^sup>* cfg cfg'" "moduleById (fst cfg) ident = Some module"
  shows "moduleById (fst cfg') ident = Some module"
  using steps_preserve [OF assms(2) reachable_invariant [OF assms(1)]] assms(3)
  by (auto simp: preserves_def grows_def map_le_def dom_def)

lemma count_list_loadCalls: "count_list (pluginCalls g) (LoadHook ident) = count_list (loadCalls g) ident"
proof -
  have "count_list cs (LoadHook ident)
        = count_list (concat (map (\<lambda>c. case c of LoadHook i \<Rightarrow> [i] | _ \<Rightarrow> []) cs)) ident" for cs
    by (induction cs) (auto split: PluginCall.splits)
  then show ?thesis by (simp add: loadCalls_def)
qed

lemma distinct_count_list_le: "distinct xs \<Longrightarrow> count_list xs x \<le> 1"
  by (induction xs) (auto simp: count_list_0_iff)

lemma fetchModule_fresh:
  assumes "moduleById g ident = None"
  shows "\<exists>g3. fetchModule g ident importer = (pluginCall g3 (LoadHook ident), Loading (nextRef g))
            \<and> moduleById g3 = (moduleById g)(ident \<mapsto> nextRef g)
            \<and> heap g3 (nextRef g) = Some (ModuleObj (newModule ident))
            \<and> watchFiles g3 = insert ident (watchFiles g)
            \<and> pluginCalls g3 = pluginCalls g
            \<and> pluginViews (pluginCall g3 (LoadHook ident))
                = pluginViews g @ [((moduleById g)(ident \<mapsto> nextRef g), insert ident (watchFiles g))]"
proof -
  let ?g3 = "(snd (allocate g (ModuleObj (newModule ident))))
               \<lparr>moduleById := (moduleById g)(ident \<mapsto> nextRef g),
                watchFiles := insert ident (watchFiles g)\<rparr>"
  have "fetchModule g ident importer = (pluginCall ?g3 (LoadHook ident), Loading (nextRef g))"
    using assms by (simp add: fetchModule_def allocate_def Let_def)
  then show ?thesis
    by (intro exI [of _ ?g3]) (simp add: allocate_def)
qed

lemma fetchModule_existing:
  assumes "moduleById g ident = Some module" "heap g module = Some (ModuleObj m)"
  shows "fetchModule g ident importer = (g, Existing module)"
  using assms by (simp add: fetchModule_def)

lemma fetchModule_external:
  assumes "moduleById g ident = Some module" "heap g module = Some (ExternalModuleObj e)"
  shows "fetchModule g ident importer = (g, Threw (JsError (''Cannot fetch external module '' @ ident)))"
  using assms by (simp add: fetchModule_def)

lemma loadCalls_member: "(ident \<in> set (loadCalls g)) = (LoadHook ident \<in> set (pluginCalls g))"
proof -
  have "(ident \<in> set (concat (map (\<lambda>c. case c of LoadHook i \<Rightarrow> [i] | _ \<Rightarrow> []) cs)))
        = (LoadHook ident \<in> set cs)" for cs
    by (induction cs) (auto split: PluginCall.splits)
  then show ?thesis by (simp add: loadCalls_def)
qed

section \<open>The states of the concrete build\<close>

lemma exampleEntry_eval:
  "moduleById exampleEntry = [''main.js'' \<mapsto> 0]"
  "heap exampleEntry = [0 \<mapsto> ModuleObj (newModule ''main.js'')]"
  "nextRef exampleEntry = 1"
  "pluginCalls exampleEntry = [ResolveIdHook ''main.js'' None, LoadHook ''main.js'']"
  "options_external exampleEntry = ExternalArray [''ext'']"
  "warnings exampleEntry = []"
  "externalModules exampleEntry = []"
  "modules exampleEntry = []"
  "cachedModules exampleEntry = Map.empty"
  "watchFiles exampleEntry = {''main.js''}"
  by (simp_all add: exampleEntry_def loadModule_then_def loadModule_def fetchModule_def
        newGraph_def allocate_def pluginCall_def)

lemma exampleLoaded_eval: "exampleLoaded = pluginCall exampleEntry (TransformCall ''main.js'')"
  by (simp add: exampleLoaded_def loaded_then_def exampleEntry_eval Let_def)

lemma exampleImporter_eval:
  "module_id exampleImporter = ''main.js''"
  "resolvedIds exampleImporter = Map.empty"
  "sources exampleImporter = [''./local'', ''lodash'']"
  "dynamicImportExpressions exampleImporter = [StringExpression ''ext'']"
  "imports' exampleImporter =
     [(''helper'', \<lparr>imp_source = ''./local'', imp_name = ''helper''\<rparr>),
      (''_'', \<lparr>imp_source = ''lodash'', imp_name = ''default''\<rparr>)]"
  by (simp_all add: exampleImporter_def newModule_def)

lemma exampleAnalysed_eval:
  "moduleById exampleAnalysed = [''main.js'' \<mapsto> 0]"
  "heap exampleAnalysed = [0 \<mapsto> ModuleObj exampleImporter]"
  "nextRef exampleAnalysed = 1"
  "options_external exampleAnalysed = ExternalArray [''ext'']"
  "warnings exampleAnalysed = []"
  "externalModules exampleAnalysed = []"
  "modules exampleAnalysed = [0]"
  "pluginCalls exampleAnalysed
     = [ResolveIdHook ''main.js'' None, LoadHook ''main.js'', TransformCall ''main.js'',
        ResolveDynamicImportHook (StringExpression ''ext'') ''main.js'']"
  by (simp_all add: exampleAnalysed_def fetchAllDependencies_def transformed_then_def Let_def
        exampleLoaded_eval exampleEntry_eval updateModule_def setSource_def exampleHost_def
        exampleImporter_def theModule_def newModule_def)

lemma exampleResolving_eval:
  "moduleById exampleResolving = [''main.js'' \<mapsto> 0]"
  "heap exampleResolving = [0 \<mapsto> ModuleObj exampleImporter]"
  "nextRef exampleResolving = 1"
  "options_external exampleResolving = ExternalArray [''ext'']"
  "warnings exampleResolving = []"
  "externalModules exampleResolving = []"
  by (simp_all add: exampleResolving_def resolveStatic_def Let_def exampleAnalysed_eval
        theModule_def exampleImporter_eval truthyString_def)

lemma exampleEntry_reachable:
  "reachable exampleHost (ExternalArray [''ext'']) [] (exampleEntry, [LoadTask ''main.js'' 0 None])"
proof -
  let ?g0 = "newGraph (ExternalArray [''ext'']) []"
  let ?g1 = "loadModule ?g0 ''main.js''"
  have s1: "step exampleHost (?g0, []) (?g1, [] @ [EntryTask ''main.js''])"
    by (rule step.entry)
  have "loadModule_then ?g1 (IdString ''main.js'') = (exampleEntry, Loading 0)"
    by (simp add: exampleEntry_def loadModule_then_def loadModule_def fetchModule_def
          newGraph_def allocate_def pluginCall_def)
  from step.entry_resolved [OF this, of exampleHost "[]" "''main.js''" "[]"]
  have s2: "step exampleHost (?g1, [EntryTask ''main.js'']) (exampleEntry, [LoadTask ''main.js'' 0 None])"
    by simp
  have "(step exampleHost)\<^sup>*\<^sup>* (?g0, []) (?g1, [EntryTask ''main.js''])"
    using s1 by simp
  from this s2 show ?thesis
    unfolding reachable_def by (rule rtranclp.rtrancl_into_rtrancl)
qed

lemma exampleAnalysed_reachable:
  "reachable exampleHost (ExternalArray [''ext'']) []
     (exampleAnalysed,
      [DependenciesTask 0, ResolveDynamicTask 0 0 (StringExpression ''ext''),
       StaticTask 0 ''./local'', StaticTask 0 ''lodash''])"
proof -
  have l: "fetchModule_loaded ''main.js'' None (Fulfilled (JsString ''import ...''))
             = Inr (JsString ''import ...'')"
    by (simp add: fetchModule_loaded_def load_then_def)
  have "loaded_then exampleEntry ''main.js'' 0 (JsString ''import ...'') = (exampleLoaded, Transforming)"
    by (simp add: exampleLoaded_def) (simp add: loaded_then_def exampleEntry_eval Let_def)
  from step.loaded [OF l this, of exampleHost "[]" "[]"]
  have s3: "step exampleHost (exampleEntry, [LoadTask ''main.js'' 0 None])
              (exampleLoaded, [TransformTask ''main.js'' 0 None])"
    by simp
  have "fetchAllDependencies (transformed_then exampleHost exampleLoaded ''main.js'' 0 exampleJSON) 0
          = (exampleAnalysed,
             [ResolveDynamicTask 0 0 (StringExpression ''ext''),
              StaticTask 0 ''./local'', StaticTask 0 ''lodash''])"
    by (simp add: exampleAnalysed_def)
       (simp add: fetchAllDependencies_def transformed_then_def Let_def
          exampleLoaded_eval exampleEntry_eval updateModule_def setSource_def exampleHost_def
          exampleImporter_def theModule_def newModule_def)
  from step.transformed [OF _ this, of None "[]" "[]"]
  have s4: "step exampleHost (exampleLoaded, [TransformTask ''main.js'' 0 None])
              (exampleAnalysed,
               [DependenciesTask 0, ResolveDynamicTask 0 0 (StringExpression ''ext''),
                StaticTask 0 ''./local'', StaticTask 0 ''lodash''])"
    by simp
  have "(step exampleHost)\<^sup>*\<^sup>* (newGraph (ExternalArray [''ext'']) [], [])
          (exampleLoaded, [TransformTask ''main.js'' 0 None])"
    using exampleEntry_reachable s3 unfolding reachable_def by (rule rtranclp.rtrancl_into_rtrancl)
  from this s4 show ?thesis
    unfolding reachable_def by (rule rtranclp.rtrancl_into_rtrancl)
qed

lemma exampleResolving_reachable:
  "reachable exampleHost (ExternalArray [''ext'']) [] (exampleResolving, exampleTasks)"
proof -
  let ?g5 = "fst (resolveStatic exampleAnalysed 0 ''./local'')"
  have e0: "heap ?g5 = heap exampleAnalysed" "options_external ?g5 = ExternalArray [''ext'']"
    by (simp_all add: resolveStatic_def Let_def exampleAnalysed_eval split: if_splits)
  have "resolveStatic exampleAnalysed 0 ''./local'' = (?g5, None)"
    by (simp add: resolveStatic_def Let_def exampleAnalysed_eval theModule_def
          exampleImporter_eval truthyString_def)
  from step.static_start
         [OF this, of exampleHost "[DependenciesTask 0, ResolveDynamicTask 0 0 (StringExpression ''ext'')]"
                      "[StaticTask 0 ''lodash'']"]
  have s5: "step exampleHost
              (exampleAnalysed,
               [DependenciesTask 0, ResolveDynamicTask 0 0 (StringExpression ''ext''),
                StaticTask 0 ''./local'', StaticTask 0 ''lodash''])
              (?g5, [DependenciesTask 0, ResolveDynamicTask 0 0 (StringExpression ''ext''),
                     ResolveIdTask 0 ''./local'' None, StaticTask 0 ''lodash''])"
    by simp
  have "resolveStatic ?g5 0 ''lodash'' = (exampleResolving, None)"
    by (simp add: exampleResolving_def)
       (simp add: resolveStatic_def [of ?g5] Let_def e0 exampleAnalysed_eval theModule_def
          exampleImporter_eval truthyString_def)
  from step.static_start
         [OF this, of exampleHost "[DependenciesTask 0, ResolveDynamicTask 0 0 (StringExpression ''ext''),
                                    ResolveIdTask 0 ''./local'' None]" "[]"]
  have s6: "step exampleHost
              (?g5, [DependenciesTask 0, ResolveDynamicTask 0 0 (StringExpression ''ext''),
                     ResolveIdTask 0 ''./local'' None, StaticTask 0 ''lodash''])
              (exampleResolving, exampleTasks)"
    by (simp add: exampleTasks_def)
  have "(step exampleHost)\<^sup>*\<^sup>* (newGraph (ExternalArray [''ext'']) [], [])
          (?g5, [DependenciesTask 0, ResolveDynamicTask 0 0 (StringExpression ''ext''),
                 ResolveIdTask 0 ''./local'' None, StaticTask 0 ''lodash''])"
    using exampleAnalysed_reachable s5 unfolding reachable_def by (rule rtranclp.rtrancl_into_rtrancl)
  from this s6 show ?thesis
    unfolding reachable_def by (rule rtranclp.rtrancl_into_rtrancl)
qed

lemma exampleAnalysed_more:
  "watchFiles exampleAnalysed = {''main.js''}"
  by (simp_all add: exampleAnalysed_def fetchAllDependencies_def transformed_then_def Let_def
        exampleLoaded_eval exampleEntry_eval updateModule_def setSource_def exampleHost_def
        exampleImporter_def theModule_def newModule_def)

lemma exampleResolving_more:
  "watchFiles exampleResolving = {''main.js''}"
  "modules exampleResolving = [0]"
  "pluginCalls exampleResolving
     = [ResolveIdHook ''main.js'' None, LoadHook ''main.js'', TransformCall ''main.js'',
        ResolveDynamicImportHook (StringExpression ''ext'') ''main.js'',
        ResolveIdHook ''./local'' (Some ''main.js''), ResolveIdHook ''lodash'' (Some ''main.js'')]"
  by (simp_all add: exampleResolving_def resolveStatic_def Let_def exampleAnalysed_eval
        exampleAnalysed_more theModule_def exampleImporter_eval truthyString_def)

lemma exampleExternal_run:
  "resolveId_then exampleHost exampleResolving 0 ''lodash'' IdFalse = (exampleExternal, StaticDone)"
  by (simp add: exampleExternal_def)
     (simp add: resolveId_then_def importExternal_def Let_def exampleResolving_eval allocate_def
          theModule_def exampleImporter_eval setResolvedId_def updateModule_def externalIdOf_def
          newExternalModule_def exampleHost_def startsWith_def)

lemma exampleExternal_eval:
  "moduleById exampleExternal = [''main.js'' \<mapsto> 0, ''lodash'' \<mapsto> 1]"
  "heap exampleExternal 1 = Some (ExternalModuleObj
      \<lparr>external_id = ''lodash'', exportsNamespace = False, tracedExports = []\<rparr>)"
  "heap exampleExternal (Suc 0) = Some (ExternalModuleObj
      \<lparr>external_id = ''lodash'', exportsNamespace = False, tracedExports = []\<rparr>)"
  "heap exampleExternal 0 = Some (ModuleObj
      (exampleImporter\<lparr>resolvedIds := [''lodash'' \<mapsto> ''lodash'']\<rparr>))"
  "watchFiles exampleExternal = {''main.js''}"
  "options_external exampleExternal = ExternalArray [''ext'']"
  "pluginCalls exampleExternal
     = [ResolveIdHook ''main.js'' None, LoadHook ''main.js'', TransformCall ''main.js'',
        ResolveDynamicImportHook (StringExpression ''ext'') ''main.js'',
        ResolveIdHook ''./local'' (Some ''main.js''), ResolveIdHook ''lodash'' (Some ''main.js'')]"
  by (simp_all add: exampleExternal_def resolveId_then_def importExternal_def Let_def
        exampleResolving_eval exampleResolving_more allocate_def
        theModule_def exampleImporter_eval setResolvedId_def updateModule_def externalIdOf_def
        newExternalModule_def exampleHost_def startsWith_def)

lemma exampleExternal_reachable:
  "reachable exampleHost (ExternalArray [''ext'']) [] (exampleExternal, exampleExternalTasks)"
proof -
  from step.static_resolved
         [OF _ exampleExternal_run,
          of None "[DependenciesTask 0, ResolveDynamicTask 0 0 (StringExpression ''ext''),
                    ResolveIdTask 0 ''./local'' None]" "[]"]
  have "step exampleHost (exampleResolving, exampleTasks) (exampleExternal, exampleExternalTasks)"
    by (simp add: exampleTasks_def exampleExternalTasks_def)
  with exampleResolving_reachable show ?thesis
    unfolding reachable_def by (rule rtranclp.rtrancl_into_rtrancl)
qed





section \<open>The load hook is invoked once for an id\<close>

text \<open>
  C2 (as amended). In every state that a build can reach, whatever the hooks return and
  however the callbacks interleave, the load hook has been invoked at most once for an
  id, and an id for which it was invoked is registered. A call of \<^verbatim>\<open>fetchModule\<close> on an
  id that \<^verbatim>\<open>moduleById\<close> does not hold invokes the hook on a state \<open>g3\<close> that
  already maps the id to the fresh module and lists it in \<^verbatim>\<open>watchFiles\<close>, with no
  plugin call in between: the registry and the watch files that the hook finds hold the
  id. A call on an id registered to a module returns that module and leaves the graph,
  the call log included, as it was. A call on an id registered to an external module
  throws and leaves the graph as it was. An id stays registered to the same object for
  the rest of the build.
\<close>

theorem fetchModule_loads_once:
  assumes "reachable h opt cache (g, ts)"
  shows "count_list (pluginCalls g) (LoadHook ident) \<le> 1
     \<and> (LoadHook ident \<in> set (pluginCalls g) \<longrightarrow> moduleById g ident \<noteq> None)
     \<and> (moduleById g ident = None \<longrightarrow>
          (\<exists>g3. fetchModule g ident importer = (pluginCall g3 (LoadHook ident), Loading (nextRef g))
                \<and> moduleById g3 = (moduleById g)(ident \<mapsto> nextRef g)
                \<and> heap g3 (nextRef g) = Some (ModuleObj (newModule ident))
                \<and> watchFiles g3 = insert ident (watchFiles g)
                \<and> pluginCalls g3 = pluginCalls g
                \<and> pluginViews (pluginCall g3 (LoadHook ident))
                    = pluginViews g
                      @ [((moduleById g)(ident \<mapsto> nextRef g), insert ident (watchFiles g))]))
     \<and> (\<forall>module m. moduleById g ident = Some module \<and> heap g module = Some (ModuleObj m)
          \<longrightarrow> fetchModule g ident importer = (g, Existing module))
     \<and> (\<forall>module e. moduleById g ident = Some module \<and> heap g module = Some (ExternalModuleObj e)
          \<longrightarrow> fetchModule g ident importer
                = (g, Threw (JsError (''Cannot fetch external module '' @ ident))))
     \<and> (\<forall>module g' ts'. moduleById g ident = Some module \<and> (step h)\<^sup>*\<^sup>* (g, ts) (g', ts')
          \<longrightarrow> moduleById g' ident = Some module)"
proof (intro conjI impI allI)
  have once: "distinct (loadCalls g)" "set (loadCalls g) \<subseteq> dom (moduleById g)"
    using reachable_invariant [OF assms] by (simp_all add: invariant_def loadedOnce_def)
  then show "count_list (pluginCalls g) (LoadHook ident) \<le> 1"
    using distinct_count_list_le [of "loadCalls g" ident] by (simp add: count_list_loadCalls)
  {
    assume "LoadHook ident \<in> set (pluginCalls g)"
    then show "moduleById g ident \<noteq> None"
      using once(2) loadCalls_member [of ident g] by auto
  }
next
  assume "moduleById g ident = None"
  then show "\<exists>g3. fetchModule g ident importer = (pluginCall g3 (LoadHook ident), Loading (nextRef g))
                \<and> moduleById g3 = (moduleById g)(ident \<mapsto> nextRef g)
                \<and> heap g3 (nextRef g) = Some (ModuleObj (newModule ident))
                \<and> watchFiles g3 = insert ident (watchFiles g)
                \<and> pluginCalls g3 = pluginCalls g
                \<and> pluginViews (pluginCall g3 (LoadHook ident))
                    = pluginViews g
                      @ [((moduleById g)(ident \<mapsto> nextRef g), insert ident (watchFiles g))]"
    by (rule fetchModule_fresh)
next
  fix module m
  assume "moduleById g ident = Some module \<and> heap g module = Some (ModuleObj m)"
  then show "fetchModule g ident importer = (g, Existing module)"
    by (simp add: fetchModule_existing)
next
  fix module e
  assume "moduleById g ident = Some module \<and> heap g module = Some (ExternalModuleObj e)"
  then show "fetchModule g ident importer
               = (g, Threw (JsError (''Cannot fetch external module '' @ ident)))"
    by (simp add: fetchModule_external)
next
  fix module g' ts'
  assume a: "moduleById g ident = Some module \<and> (step h)\<^sup>*\<^sup>* (g, ts) (g', ts')"
  show "moduleById g' ident = Some module"
    using reachable_stable [OF assms, of "(g', ts')" ident module] a by simp
qed

theorem fetchModule_loads_once_witness:
  "reachable exampleHost (ExternalArray [''ext'']) [] (exampleEntry, [LoadTask ''main.js'' 0 None])
   \<and> count_list (pluginCalls exampleEntry) (LoadHook ''main.js'') = 1
   \<and> moduleById exampleEntry ''main.js'' = Some 0
   \<and> fetchModule exampleEntry ''main.js'' (Some ''other.js'') = (exampleEntry, Existing 0)
   \<and> moduleById exampleEntry ''lib.js'' = None
   \<and> snd (fetchModule exampleEntry ''lib.js'' (Some ''main.js'')) = Loading 1
   \<and> last (pluginCalls (fst (fetchModule exampleEntry ''lib.js'' (Some ''main.js''))))
       = LoadHook ''lib.js''
   \<and> last (pluginViews (fst (fetchModule exampleEntry ''lib.js'' (Some ''main.js''))))
       = ([''main.js'' \<mapsto> 0, ''lib.js'' \<mapsto> 1], {''lib.js'', ''main.js''})
   \<and> reachable exampleHost (ExternalArray [''ext'']) [] (exampleExternal, exampleExternalTasks)
   \<and> fetchModule exampleExternal ''lodash'' (Some ''main.js'')
       = (exampleExternal, Threw (JsError ''Cannot fetch external module lodash''))"
proof -
  have a: "fetchModule exampleEntry ''main.js'' (Some ''other.js'') = (exampleEntry, Existing 0)"
    using fetchModule_loads_once [OF exampleEntry_reachable, of "''main.js''" "Some ''other.js''"]
    by (simp add: exampleEntry_eval)
  obtain g3 where b:
      "fetchModule exampleEntry ''lib.js'' (Some ''main.js'')
         = (pluginCall g3 (LoadHook ''lib.js''), Loading (nextRef exampleEntry))"
      "moduleById g3 = (moduleById exampleEntry)(''lib.js'' \<mapsto> nextRef exampleEntry)"
      "watchFiles g3 = insert ''lib.js'' (watchFiles exampleEntry)"
    using fetchModule_loads_once [OF exampleEntry_reachable, of "''lib.js''" "Some ''main.js''"]
    by (auto simp: exampleEntry_eval)
  have c: "fetchModule exampleExternal ''lodash'' (Some ''main.js'')
       = (exampleExternal, Threw (JsError ''Cannot fetch external module lodash''))"
    using fetchModule_loads_once [OF exampleExternal_reachable, of "''lodash''" "Some ''main.js''"]
    by (simp add: exampleExternal_eval)
  show ?thesis
    using exampleEntry_reachable exampleExternal_reachable a c
    by (simp add: b exampleEntry_eval)
qed

text \<open>
  C2 as stated fails for an id that is registered without a call of \<^verbatim>\<open>fetchModule\<close>.
  In the concrete build, \<^verbatim>\<open>resolveId\<close> has returned \<^verbatim>\<open>false\<close> for the import
  specifier \<^verbatim>\<open>lodash\<close>, and line 700 has registered the id to an external module; the
  load hook was not invoked for it. When the import specifier \<^verbatim>\<open>./local\<close> then
  resolves to the id \<^verbatim>\<open>lodash\<close>, the callback calls \<^verbatim>\<open>fetchModule\<close> with it for the
  first time: the call throws (line 509), inserts no module and adds nothing to
  \<^verbatim>\<open>watchFiles\<close>.
\<close>

theorem fetchModule_registered_external_counterexample:
  "reachable exampleHost (ExternalArray [''ext'']) [] (exampleExternal, exampleExternalTasks)
   \<and> count_list (pluginCalls exampleExternal) (LoadHook ''lodash'') = 0
   \<and> moduleById exampleExternal ''lodash'' = Some 1
   \<and> heap exampleExternal 1 = Some (ExternalModuleObj
        \<lparr>external_id = ''lodash'', exportsNamespace = False, tracedExports = []\<rparr>)
   \<and> fetchModule exampleExternal ''lodash'' (Some ''main.js'')
       = (exampleExternal, Threw (JsError ''Cannot fetch external module lodash''))
   \<and> snd (resolveId_then exampleHost exampleExternal 0 ''./local'' (IdString ''lodash''))
       = StaticFetch (Threw (JsError ''Cannot fetch external module lodash''))
   \<and> ''lodash'' \<notin> watchFiles exampleExternal
   \<and> ''lodash'' \<notin> watchFiles (fst (resolveId_then exampleHost exampleExternal 0 ''./local''
                                      (IdString ''lodash'')))"
proof -
  have f: "fetchModule exampleExternal ''lodash'' (Some ''main.js'')
       = (exampleExternal, Threw (JsError ''Cannot fetch external module lodash''))"
    by (simp add: fetchModule_def exampleExternal_eval)
  have r: "resolveId_then exampleHost exampleExternal 0 ''./local'' (IdString ''lodash'')
       = (setResolvedId exampleExternal 0 ''./local'' ''lodash'',
          StaticFetch (Threw (JsError ''Cannot fetch external module lodash'')))"
    by (simp add: resolveId_then_def Let_def externalIdOf_def exampleExternal_eval theModule_def
          exampleImporter_eval fetchModule_def setResolvedId_def updateModule_heap)
  show ?thesis
    using exampleExternal_reachable f
    by (simp add: r exampleExternal_eval setResolvedId_def)
qed


section \<open>Static imports that resolve to an external module\<close>

lemma traceImports_frame [simp]:
  "options_external (traceImports g e source decls) = options_external g"
  "nextRef (traceImports g e source decls) = nextRef g"
  "moduleById (traceImports g e source decls) = moduleById g"
  "externalModules (traceImports g e source decls) = externalModules g"
  "modules (traceImports g e source decls) = modules g"
  "watchFiles (traceImports g e source decls) = watchFiles g"
  "cachedModules (traceImports g e source decls) = cachedModules g"
  "warnings (traceImports g e source decls) = warnings g"
  "pluginCalls (traceImports g e source decls) = pluginCalls g"
  by (induction g e source decls rule: traceImports.induct) simp_all




lemma importExternal_warnings [simp]:
  "warnings (fst (importExternal g module source externalId)) = warnings g"
  by (simp add: importExternal_def Let_def allocate_def setResolvedId_def split_beta
        split: option.splits Obj.splits)

lemma theModule_setResolvedId_id [simp]:
  "module_id (theModule (setResolvedId g r source x) r') = module_id (theModule g r')"
  by (simp add: setResolvedId_def theModule_def updateModule_heap split: option.splits Obj.splits)





text \<open>
  C3 (the code at a failing input). In the concrete build, \<^verbatim>\<open>main.js\<close> declares the
  import \<^verbatim>\<open>helper\<close> from \<^verbatim>\<open>./local\<close> before the import \<^verbatim>\<open>_\<close> from \<^verbatim>\<open>lodash\<close>, and
  \<^verbatim>\<open>resolveId\<close> returns \<^verbatim>\<open>false\<close> for \<^verbatim>\<open>lodash\<close>. The callback registers the external
  module \<^verbatim>\<open>lodash\<close>, and the loop over \<^verbatim>\<open>module.imports\<close> leaves at the first
  declaration, whose source is \<^verbatim>\<open>./local\<close>: \<^verbatim>\<open>traceExport\<close> is never called for the
  declaration that imports from \<^verbatim>\<open>lodash\<close>.
\<close>

theorem external_import_not_traced:
  "reachable exampleHost (ExternalArray [''ext'']) [] (exampleResolving, exampleTasks)
   \<and> (''_'', \<lparr>imp_source = ''lodash'', imp_name = ''default''\<rparr>)
        \<in> set (imports' (theModule exampleResolving 0))
   \<and> (let (g', out) = resolveId_then exampleHost exampleResolving 0 ''lodash'' IdFalse
       in out = StaticDone
          \<and> moduleById g' ''lodash'' = Some 1
          \<and> resolvedIds (theModule g' 0) ''lodash'' = Some ''lodash''
          \<and> heap g' 1 = Some (ExternalModuleObj
                \<lparr>external_id = ''lodash'', exportsNamespace = False, tracedExports = []\<rparr>))"
proof -
  have "(let (g', out) = resolveId_then exampleHost exampleResolving 0 ''lodash'' IdFalse
       in out = StaticDone
          \<and> moduleById g' ''lodash'' = Some 1
          \<and> resolvedIds (theModule g' 0) ''lodash'' = Some ''lodash''
          \<and> heap g' 1 = Some (ExternalModuleObj
                \<lparr>external_id = ''lodash'', exportsNamespace = False, tracedExports = []\<rparr>))"
    by (simp add: resolveId_then_def importExternal_def Let_def exampleResolving_eval allocate_def
          theModule_def exampleImporter_eval setResolvedId_def updateModule_def externalIdOf_def
          newExternalModule_def exampleHost_def startsWith_def)
  then show ?thesis
    using exampleResolving_reachable
    by (simp add: theModule_def exampleResolving_eval exampleImporter_eval)
qed

section \<open>Dynamic imports that resolve to an external module\<close>

lemma resolveDynamicImport_then_external_fresh:
  assumes "r \<noteq> []" "moduleById g r = None"
    and "isExternal (options_external g) r (module_id (theModule g module)) True"
  shows "moduleById (fst (resolveDynamicImport_then h g module index (StringExpression s) (Some r))) r
           = Some module"
    and "externalModules (fst (resolveDynamicImport_then h g module index (StringExpression s) (Some r)))
           = externalModules g @ [nextRef g]"
  using assms
  by (simp_all add: resolveDynamicImport_then_def Let_def allocate_def
        setDynamicImportResolution_def)

text \<open>
  C1 (the code at a failing input). In the concrete build, \<^verbatim>\<open>main.js\<close> imports
  \<^verbatim>\<open>ext\<close> dynamically, \<^verbatim>\<open>resolveDynamicImport\<close> returns \<^verbatim>\<open>ext\<close>, the external option
  lists it and \<^verbatim>\<open>moduleById\<close> does not have it yet. The callback creates the external
  module (reference 1), pushes it onto \<^verbatim>\<open>externalModules\<close>, records it as the resolution
  of the dynamic import and sets its \<^verbatim>\<open>exportsNamespace\<close>; under the replacement id,
  \<^verbatim>\<open>moduleById\<close> holds reference 0, the importing module, which is not external.
\<close>

theorem dynamic_external_registers_importer:
  "reachable exampleHost (ExternalArray [''ext'']) []
     (exampleAnalysed,
      [DependenciesTask 0, ResolveDynamicTask 0 0 (StringExpression ''ext''),
       StaticTask 0 ''./local'', StaticTask 0 ''lodash''])
   \<and> moduleById exampleAnalysed ''ext'' = None
   \<and> isExternal (options_external exampleAnalysed) ''ext'' ''main.js'' True
   \<and> (let (g', out) = resolveDynamicImport_then exampleHost exampleAnalysed 0 0
                          (StringExpression ''ext'') (Some ''ext'')
       in out = DynamicDone
          \<and> externalModules g' = [1]
          \<and> heap g' 1 = Some (ExternalModuleObj
                \<lparr>external_id = ''ext'', exportsNamespace = True, tracedExports = []\<rparr>)
          \<and> map_option dyn_resolution (dynamicImportResolutions (theModule g' 0) 0)
                = Some (ObjectResolution 1)
          \<and> moduleById g' ''ext'' = Some 0
          \<and> moduleById g' ''ext'' \<noteq> Some 1
          \<and> map_option obj_isExternal (heap g' 0) = Some False)"
proof -
  have "isExternal (options_external exampleAnalysed) ''ext'' ''main.js'' True"
    by (simp add: exampleAnalysed_eval)
  moreover have "moduleById exampleAnalysed ''ext'' = None"
    by (simp add: exampleAnalysed_eval)
  moreover have "(let (g', out) = resolveDynamicImport_then exampleHost exampleAnalysed 0 0
                          (StringExpression ''ext'') (Some ''ext'')
       in out = DynamicDone
          \<and> externalModules g' = [1]
          \<and> heap g' 1 = Some (ExternalModuleObj
                \<lparr>external_id = ''ext'', exportsNamespace = True, tracedExports = []\<rparr>)
          \<and> map_option dyn_resolution (dynamicImportResolutions (theModule g' 0) 0)
                = Some (ObjectResolution 1)
          \<and> moduleById g' ''ext'' = Some 0
          \<and> moduleById g' ''ext'' \<noteq> Some 1
          \<and> map_option obj_isExternal (heap g' 0) = Some False)"
    by (simp add: resolveDynamicImport_then_def Let_def exampleAnalysed_eval allocate_def
          theModule_def exampleImporter_eval setDynamicImportResolution_def updateModule_def
          setExportsNamespace_def newExternalModule_def exampleHost_def)
  ultimately show ?thesis using exampleAnalysed_reachable by simp
qed

section \<open>Reuse of a cached module\<close>

lemma foldl_emitAsset_calls:
  "pluginCalls (foldl emitAsset g assets)
     = pluginCalls g @ map (\<lambda>a. EmitAsset (asset_name a) (asset_source a)) assets"
  by (induction assets arbitrary: g) (simp_all add: emitAsset_def)

text \<open>
  C7. When the cache holds a module for the fetched id that has no custom transform cache
  and whose \<^verbatim>\<open>originalCode\<close> is the code that the load hook returned (as a string, or as
  the \<^verbatim>\<open>code\<close> of an object), the callback returns the cached module itself, the only
  calls it makes are \<^verbatim>\<open>emitAsset\<close> on each of its transform assets, in order, and
  \<^verbatim>\<open>transform\<close> is not called.
\<close>

theorem cached_module_reused_without_transform:
  assumes "cachedModules g ident = Some cachedModule"
    and "\<not> customTransformCache cachedModule"
    and "source = JsString (originalCode cachedModule)
         \<or> (\<exists>props. source = JsObject props
               \<and> map_of props ''code'' = Some (JsString (originalCode cachedModule)))"
  shows "\<exists>g'. loaded_then g ident module source = (g', Reused cachedModule)
           \<and> pluginCalls g' = pluginCalls g
                @ map (\<lambda>a. EmitAsset (asset_name a) (asset_source a))
                    (case transformAssets cachedModule of None \<Rightarrow> [] | Some assets \<Rightarrow> assets)
           \<and> count_list (pluginCalls g') (TransformCall ident)
                = count_list (pluginCalls g) (TransformCall ident)"
proof -
  let ?assets = "case transformAssets cachedModule of None \<Rightarrow> [] | Some assets \<Rightarrow> assets"
  have "loaded_then g ident module source = (foldl emitAsset g ?assets, Reused cachedModule)"
    using assms by (auto simp: loaded_then_def Let_def)
  moreover have "count_list (map (\<lambda>a. EmitAsset (asset_name a) (asset_source a)) xs) (TransformCall ident) = 0"
    for xs :: "Asset list"
    by (induction xs) simp_all
  ultimately show ?thesis by (simp add: foldl_emitAsset_calls)
qed

lemma exampleWarm_eval:
  "cachedModules exampleWarm ''main.js'' = Some exampleCached"
  "pluginCalls exampleWarm = [LoadHook ''main.js'']"
  by (simp_all add: exampleWarm_def fetchModule_def newGraph_def allocate_def pluginCall_def
        exampleCached_def)

theorem cached_module_reused_without_transform_witness:
  "cachedModules exampleWarm ''main.js'' = Some exampleCached
   \<and> \<not> customTransformCache exampleCached
   \<and> originalCode exampleCached = ''import ...''
   \<and> snd (loaded_then exampleWarm ''main.js'' 0 (JsString ''import ...'')) = Reused exampleCached
   \<and> pluginCalls (fst (loaded_then exampleWarm ''main.js'' 0 (JsString ''import ...'')))
       = [LoadHook ''main.js'', EmitAsset ''logo.svg'' ''<svg/>'']"
proof -
  have a: "cachedModules exampleWarm ''main.js'' = Some exampleCached"
    by (simp add: exampleWarm_eval)
  have b: "\<not> customTransformCache exampleCached"
          "originalCode exampleCached = ''import ...''"
          "transformAssets exampleCached
             = Some [\<lparr>asset_name = ''logo.svg'', asset_source = ''<svg/>''\<rparr>]"
    by (simp_all add: exampleCached_def)
  have c: "JsString ''import ...'' = JsString (originalCode exampleCached)
           \<or> (\<exists>props. JsString ''import ...'' = JsObject props
                 \<and> map_of props ''code'' = Some (JsString (originalCode exampleCached)))"
    by (simp add: b)
  obtain g' where g':
      "loaded_then exampleWarm ''main.js'' 0 (JsString ''import ...'') = (g', Reused exampleCached)"
      "pluginCalls g' = pluginCalls exampleWarm
         @ map (\<lambda>a. EmitAsset (asset_name a) (asset_source a))
             (case transformAssets exampleCached of None \<Rightarrow> [] | Some assets \<Rightarrow> assets)"
    using cached_module_reused_without_transform [OF a b(1) c, of 0] by blast
  show ?thesis using a b g' by (simp add: exampleWarm_eval)
qed

section \<open>The default export and exportsAll\<close>

lemma ownExportsAll_lookup:
  "map_of (ownExportsAll m) name =
     (if name \<in> fst ` set (exports m) \<and> name \<noteq> ''default'' then Some (module_id m)
      else map_of (exportsAll m) name)"
proof -
  have k: "map_of (foldl (\<lambda>all n. if n \<noteq> ''default'' then AList.update n v all else all) acc names) name
        = (if name \<in> set names \<and> name \<noteq> ''default'' then Some v else map_of acc name)"
    for v acc names
    by (induction names arbitrary: acc) (auto simp: update_conv')
  show ?thesis
    using k [of "module_id m" "exportsAll m" "map fst (exports m)"]
    by (simp add: ownExportsAll_def)
qed

text \<open>
  C10. In every state that a build can reach, no module lists \<^verbatim>\<open>default\<close> in
  \<^verbatim>\<open>exportsAll\<close>. The callback that runs once the dependencies are fetched first maps
  every own exported name other than \<^verbatim>\<open>default\<close> to the module's id and leaves
  \<^verbatim>\<open>default\<close> out, then merges the re-exported modules; after the merge still no module
  lists \<^verbatim>\<open>default\<close>.
\<close>

theorem default_export_never_in_exportsAll:
  assumes "reachable h opt cache (g, ts)" and "heap g module = Some (ModuleObj m)"
  shows "''default'' \<notin> fst ` set (exportsAll m)
     \<and> fetchAllDependencies_then g module
         = reexportAll (updateModule g module (\<lambda>m. m\<lparr>exportsAll := ownExportsAll m\<rparr>)) module
             (exportAllSources m)
     \<and> (\<forall>name \<in> fst ` set (exports m).
           name \<noteq> ''default'' \<longrightarrow> map_of (ownExportsAll m) name = Some (module_id m))
     \<and> ''default'' \<notin> fst ` set (ownExportsAll m)
     \<and> (\<forall>r m'. heap (fst (fetchAllDependencies_then g module)) r = Some (ModuleObj m')
           \<longrightarrow> ''default'' \<notin> fst ` set (exportsAll m'))"
proof -
  have nd: "noDefault g" using reachable_invariant [OF assms(1)] by (simp add: invariant_def)
  then have a: "''default'' \<notin> fst ` set (exportsAll m)"
    using assms(2) by (simp add: noDefault_def)
  have b: "fetchAllDependencies_then g module
         = reexportAll (updateModule g module (\<lambda>m. m\<lparr>exportsAll := ownExportsAll m\<rparr>)) module
             (exportAllSources m)"
    using assms(2)
    by (simp add: fetchAllDependencies_then_def Let_def theModule_def updateModule_heap)
  have c: "\<forall>name \<in> fst ` set (exports m).
             name \<noteq> ''default'' \<longrightarrow> map_of (ownExportsAll m) name = Some (module_id m)"
    by (simp add: ownExportsAll_lookup)
  have d: "''default'' \<notin> fst ` set (ownExportsAll m)"
    using a by (simp add: ownExportsAll_keys)
  have "noDefault (fst (fetchAllDependencies_then g module))"
    using preserves_fetchAllDependencies_then [of g module] nd by (simp add: preserves_def)
  then have e: "\<forall>r m'. heap (fst (fetchAllDependencies_then g module)) r = Some (ModuleObj m')
           \<longrightarrow> ''default'' \<notin> fst ` set (exportsAll m')"
    by (simp add: noDefault_def)
  from a b c d e show ?thesis by blast
qed

theorem default_export_never_in_exportsAll_witness:
  "reachable exampleHost (ExternalArray [''ext'']) [] (exampleResolving, exampleTasks)
   \<and> heap exampleResolving 0 = Some (ModuleObj exampleImporter)
   \<and> map fst (exports exampleImporter) = [''default'', ''version'']
   \<and> ownExportsAll exampleImporter = [(''version'', ''main.js'')]
   \<and> map_of (ownExportsAll exampleImporter) ''version'' = Some ''main.js''
   \<and> ''default'' \<notin> fst ` set (ownExportsAll exampleImporter)
   \<and> map_option exportsAll (map_option (\<lambda>g. theModule g 0)
        (Some (fst (fetchAllDependencies_then exampleResolving 0))))
       = Some [(''version'', ''main.js'')]"
proof -
  have h: "heap exampleResolving 0 = Some (ModuleObj exampleImporter)"
    by (simp add: exampleResolving_eval)
  have o: "ownExportsAll exampleImporter = [(''version'', ''main.js'')]"
    by (simp add: ownExportsAll_def exampleImporter_def newModule_def)
  have x: "exportAllSources exampleImporter = []" "exports exampleImporter = [(''default'', ''main''), (''version'', ''version'')]"
    by (simp_all add: exampleImporter_def newModule_def)
  show ?thesis
    using default_export_never_in_exportsAll [OF exampleResolving_reachable h]
    by (simp add: exampleResolving_reachable h o x theModule_def updateModule_heap)
qed

section \<open>The tree-shaking loop terminates\<close>

lemma treeshakingPass_spec:
  assumes "\<forall>module s. s \<subseteq> U \<longrightarrow> s \<subseteq> fst (inc module s) \<and> fst (inc module s) \<subseteq> U"
    and "\<forall>module s. s \<subseteq> U \<longrightarrow> snd (inc module s) = (fst (inc module s) \<noteq> s)"
    and "s \<subseteq> U"
  shows "s \<subseteq> fst (treeshakingPass inc ms s needs)
       \<and> fst (treeshakingPass inc ms s needs) \<subseteq> U
       \<and> snd (treeshakingPass inc ms s needs) = (needs \<or> fst (treeshakingPass inc ms s needs) \<noteq> s)"
  using assms(3)
proof (induction ms arbitrary: s needs)
  case Nil
  then show ?case by simp
next
  case (Cons m ms)
  obtain s1 ch where i: "inc m s = (s1, ch)" by (cases "inc m s")
  have s1: "s \<subseteq> s1" "s1 \<subseteq> U" "ch = (s1 \<noteq> s)"
    using assms(1,2) Cons.prems i by (metis fst_conv snd_conv)+
  let ?r = "treeshakingPass inc ms s1 (if ch then True else needs)"
  have e: "treeshakingPass inc (m # ms) s needs = ?r" using i by simp
  have ih: "s1 \<subseteq> fst ?r" "fst ?r \<subseteq> U"
           "snd ?r = ((if ch then True else needs) \<or> fst ?r \<noteq> s1)"
    using Cons.IH [OF s1(2), of "if ch then True else needs"] by simp_all
  have "snd ?r = (needs \<or> fst ?r \<noteq> s)"
  proof (cases ch)
    case True
    then have "s \<subset> s1" using s1 by auto
    then have "fst ?r \<noteq> s" using ih(1) by auto
    then show ?thesis using ih(3) True by simp
  next
    case False
    then show ?thesis using ih(3) s1(3) by simp
  qed
  then show ?case unfolding e using ih(1,2) s1(1) by auto
qed

lemma treeshakingPass_unchanged:
  assumes "\<forall>module s. s \<subseteq> U \<longrightarrow> s \<subseteq> fst (inc module s) \<and> fst (inc module s) \<subseteq> U"
    and "\<forall>module s. s \<subseteq> U \<longrightarrow> snd (inc module s) = (fst (inc module s) \<noteq> s)"
    and "s \<subseteq> U" "\<not> snd (treeshakingPass inc ms s needs)"
  shows "\<forall>m \<in> set ms. inc m s = (s, False)"
  using assms(3,4)
proof (induction ms arbitrary: needs)
  case Nil
  then show ?case by simp
next
  case (Cons m ms)
  obtain s1 ch where i: "inc m s = (s1, ch)" by (cases "inc m s")
  have s1: "s \<subseteq> s1" "s1 \<subseteq> U" "ch = (s1 \<noteq> s)"
    using assms(1,2) Cons.prems(1) i by (metis fst_conv snd_conv)+
  have n: "\<not> snd (treeshakingPass inc ms s1 (if ch then True else needs))"
    using Cons.prems(2) i by simp
  have "\<not> ch"
    using treeshakingPass_spec [OF assms(1,2) s1(2), of ms "if ch then True else needs"] n by auto
  then have "s1 = s" using s1(3) by simp
  then show ?case using Cons.IH [of "if ch then True else needs"] n i \<open>\<not> ch\<close> Cons.prems(1) by auto
qed

lemma treeshakingLoop_terminates:
  assumes fin: "finite U"
    and mono: "\<forall>module s. s \<subseteq> U \<longrightarrow> s \<subseteq> fst (inc module s) \<and> fst (inc module s) \<subseteq> U"
    and chg: "\<forall>module s. s \<subseteq> U \<longrightarrow> snd (inc module s) = (fst (inc module s) \<noteq> s)"
    and sub: "s \<subseteq> U"
  shows "\<exists>n. 0 < n \<and> n \<le> card (U - s) + 1
           \<and> treeshakingLoop inc ms s calls pass
               = Some ((afterPass inc ms ^^ n) s, calls @ concat (replicate n (map IncludeCall ms)), pass + n)
           \<and> \<not> passChanged inc ms ((afterPass inc ms ^^ (n - 1)) s)
           \<and> (\<forall>k < n - 1. passChanged inc ms ((afterPass inc ms ^^ k) s))"
  using sub
proof (induction "card (U - s)" arbitrary: s calls pass rule: less_induct)
  case less
  obtain s' needs where p: "treeshakingPass inc ms s False = (s', needs)"
    by (cases "treeshakingPass inc ms s False")
  have sp: "s \<subseteq> s'" "s' \<subseteq> U" "needs = (s' \<noteq> s)"
    using treeshakingPass_spec [OF mono chg less.prems, of ms False] p by auto
  show ?case
  proof (cases needs)
    case False
    have "treeshakingLoop inc ms s calls pass = Some (s', calls @ map IncludeCall ms, pass + 1)"
      using p False by (subst treeshakingLoop.simps) simp
    then show ?thesis
      using p False by (intro exI [of _ 1]) (simp add: afterPass_def passChanged_def)
  next
    case True
    then have "s \<subset> s'" using sp by auto
    then have "U - s' \<subset> U - s" using sp(2) by auto
    then have lt: "card (U - s') < card (U - s)" using fin by (simp add: psubset_card_mono)
    obtain n where n: "0 < n" "n \<le> card (U - s') + 1"
        "treeshakingLoop inc ms s' (calls @ map IncludeCall ms) (pass + 1)
           = Some ((afterPass inc ms ^^ n) s',
                   (calls @ map IncludeCall ms) @ concat (replicate n (map IncludeCall ms)),
                   pass + 1 + n)"
        "\<not> passChanged inc ms ((afterPass inc ms ^^ (n - 1)) s')"
        "\<forall>k < n - 1. passChanged inc ms ((afterPass inc ms ^^ k) s')"
      using less.hyps [OF lt sp(2), of "calls @ map IncludeCall ms" "pass + 1"] by blast
    have a: "afterPass inc ms s = s'" "passChanged inc ms s"
      using p True by (simp_all add: afterPass_def passChanged_def)
    have f: "(afterPass inc ms ^^ k) s' = (afterPass inc ms ^^ Suc k) s" for k
      using a(1) by (simp add: funpow_swap1)
    have "treeshakingLoop inc ms s calls pass
            = treeshakingLoop inc ms s' (calls @ map IncludeCall ms) (pass + 1)"
      using p True by (subst treeshakingLoop.simps) simp
    then have r: "treeshakingLoop inc ms s calls pass
            = Some ((afterPass inc ms ^^ Suc n) s,
                    calls @ concat (replicate (Suc n) (map IncludeCall ms)), pass + Suc n)"
      using n(3) f by simp
    have c: "\<forall>k < Suc n - 1. passChanged inc ms ((afterPass inc ms ^^ k) s)"
    proof (intro allI impI)
      fix k assume "k < Suc n - 1"
      show "passChanged inc ms ((afterPass inc ms ^^ k) s)"
      proof (cases k)
        case 0
        then show ?thesis using a(2) by simp
      next
        case (Suc j)
        then have "j < n - 1" using \<open>k < Suc n - 1\<close> by simp
        then show ?thesis using n(5) f Suc by simp
      qed
    qed
    have d: "\<not> passChanged inc ms ((afterPass inc ms ^^ (Suc n - 1)) s)"
      using n(1,4) f [of "n - 1"] by simp
    show ?thesis
      using n(1,2) lt r c d by (intro exI [of _ "Suc n"]) simp
  qed
qed

lemma afterPass_subset:
  assumes "\<forall>module s. s \<subseteq> U \<longrightarrow> s \<subseteq> fst (inc module s) \<and> fst (inc module s) \<subseteq> U"
    and "\<forall>module s. s \<subseteq> U \<longrightarrow> snd (inc module s) = (fst (inc module s) \<noteq> s)"
    and "s \<subseteq> U"
  shows "(afterPass inc ms ^^ k) s \<subseteq> U"
proof (induction k)
  case 0
  then show ?case using assms(3) by simp
next
  case (Suc k)
  then show ?case
    using treeshakingPass_spec [OF assms(1,2) Suc, of ms False] by (simp add: afterPass_def)
qed

text \<open>
  C9. Let the inclusion state be a set of nodes within a finite set \<open>U\<close> (the nodes of
  the ASTs), let \<^verbatim>\<open>include\<close> only add nodes and return true exactly when it added one.
  Then \<^verbatim>\<open>includeMarked\<close> with tree-shaking returns: it runs \<open>n\<close> full passes over the
  modules, at most one more than the number of nodes not yet included, every pass before
  the last had an \<^verbatim>\<open>include\<close> that returned true, the last one had none, and in the final
  state no \<^verbatim>\<open>include\<close> changes anything. Without tree-shaking it calls
  \<^verbatim>\<open>includeAllInBundle\<close> once on each module, in order, in a single pass.
\<close>

theorem includeMarked_terminates:
  assumes "finite U" "s \<subseteq> U"
    and "\<forall>module s. s \<subseteq> U \<longrightarrow> s \<subseteq> fst (module_include module s) \<and> fst (module_include module s) \<subseteq> U"
    and "\<forall>module s. s \<subseteq> U \<longrightarrow> snd (module_include module s) = (fst (module_include module s) \<noteq> s)"
  shows "(\<exists>n. 0 < n \<and> n \<le> card (U - s) + 1
            \<and> includeMarked True module_include includeAllInBundle ms s
                = Some ((afterPass module_include ms ^^ n) s, concat (replicate n (map IncludeCall ms)))
            \<and> \<not> passChanged module_include ms ((afterPass module_include ms ^^ (n - 1)) s)
            \<and> (\<forall>k < n - 1. passChanged module_include ms ((afterPass module_include ms ^^ k) s))
            \<and> (\<forall>m \<in> set ms. module_include m ((afterPass module_include ms ^^ n) s)
                                = ((afterPass module_include ms ^^ n) s, False)))
       \<and> includeMarked False module_include includeAllInBundle ms s
           = Some (foldl (\<lambda>s module. includeAllInBundle module s) s ms, map IncludeAllInBundleCall ms)"
proof
  obtain n where n: "0 < n" "n \<le> card (U - s) + 1"
      "treeshakingLoop module_include ms s [] 1
         = Some ((afterPass module_include ms ^^ n) s,
                 [] @ concat (replicate n (map IncludeCall ms)), 1 + n)"
      "\<not> passChanged module_include ms ((afterPass module_include ms ^^ (n - 1)) s)"
      "\<forall>k < n - 1. passChanged module_include ms ((afterPass module_include ms ^^ k) s)"
    using treeshakingLoop_terminates [OF assms(1,3,4,2), of ms "[]" 1] by blast
  let ?t = "(afterPass module_include ms ^^ (n - 1)) s"
  have t: "?t \<subseteq> U" by (rule afterPass_subset [OF assms(3,4,2)])
  have nc: "\<not> snd (treeshakingPass module_include ms ?t False)"
    using n(4) by (simp add: passChanged_def)
  have fixed: "\<forall>m \<in> set ms. module_include m ?t = (?t, False)"
    by (rule treeshakingPass_unchanged [OF assms(3,4) t nc])
  have "afterPass module_include ms ?t = ?t"
    using treeshakingPass_spec [OF assms(3,4) t, of ms False] nc by (simp add: afterPass_def)
  then have "(afterPass module_include ms ^^ Suc (n - 1)) s = ?t" by simp
  then have e: "(afterPass module_include ms ^^ n) s = ?t" using n(1) by simp
  show "\<exists>n. 0 < n \<and> n \<le> card (U - s) + 1
            \<and> includeMarked True module_include includeAllInBundle ms s
                = Some ((afterPass module_include ms ^^ n) s, concat (replicate n (map IncludeCall ms)))
            \<and> \<not> passChanged module_include ms ((afterPass module_include ms ^^ (n - 1)) s)
            \<and> (\<forall>k < n - 1. passChanged module_include ms ((afterPass module_include ms ^^ k) s))
            \<and> (\<forall>m \<in> set ms. module_include m ((afterPass module_include ms ^^ n) s)
                                = ((afterPass module_include ms ^^ n) s, False))"
    using n fixed e by (intro exI [of _ n]) (simp add: includeMarked_def)
  show "includeMarked False module_include includeAllInBundle ms s
           = Some (foldl (\<lambda>s module. includeAllInBundle module s) s ms, map IncludeAllInBundleCall ms)"
    by (simp add: includeMarked_def)
qed

theorem includeMarked_terminates_witness:
  "includeMarked True exampleInclude exampleIncludeAll [False, True] {}
     = Some ({False, True},
             [IncludeCall False, IncludeCall True, IncludeCall False, IncludeCall True])
   \<and> includeMarked False exampleInclude exampleIncludeAll [False, True] {}
     = Some ({False, True}, [IncludeAllInBundleCall False, IncludeAllInBundleCall True])"
proof -
  have a: "\<forall>module s. s \<subseteq> UNIV \<longrightarrow> s \<subseteq> fst (exampleInclude module s) \<and> fst (exampleInclude module s) \<subseteq> UNIV"
    by (auto simp: exampleInclude_def)
  have b: "\<forall>module s. s \<subseteq> UNIV \<longrightarrow> snd (exampleInclude module s) = (fst (exampleInclude module s) \<noteq> s)"
    by (auto simp: exampleInclude_def)
  have p1: "treeshakingPass exampleInclude [False, True] {} False = ({False, True}, True)"
    by (simp add: exampleInclude_def insert_commute)
  have p2: "treeshakingPass exampleInclude [False, True] {False, True} False = ({False, True}, False)"
    by (simp add: exampleInclude_def insert_commute)
  have l: "treeshakingLoop exampleInclude [False, True] {} [] 1
             = Some ({False, True},
                     [IncludeCall False, IncludeCall True, IncludeCall False, IncludeCall True], 3)"
  proof -
    have l1: "treeshakingLoop exampleInclude [False, True] {} [] 1
                = treeshakingLoop exampleInclude [False, True] {False, True}
                    ([] @ map IncludeCall [False, True]) (1 + 1)"
      by (subst treeshakingLoop.simps) (simp only: p1 prod.case if_True)
    have l2: "treeshakingLoop exampleInclude [False, True] {False, True}
                    ([] @ map IncludeCall [False, True]) (1 + 1)
                = Some ({False, True},
                        ([] @ map IncludeCall [False, True]) @ map IncludeCall [False, True],
                        1 + 1 + 1)"
      by (subst treeshakingLoop.simps) (simp only: p2 prod.case if_False)
    show ?thesis unfolding l1 l2 by simp
  qed
  show ?thesis
    using includeMarked_terminates [OF finite_UNIV subset_UNIV a b, of "{}" exampleIncludeAll "[False, True]"] l
    by (simp add: includeMarked_def exampleIncludeAll_def insert_commute)
qed

section \<open>The chunks partition the modules by entry-points hash\<close>

lemma chunkModules_spec:
  "distinct (map fst (foldl (addToChunkModules hex g) [] ms))
   \<and> (\<forall>k. map_of (foldl (addToChunkModules hex g) [] ms) k
          = (if k \<in> entryHashSum hex g ` set ms
             then Some (filter (\<lambda>module. entryHashSum hex g module = k) ms) else None))"
proof (induction ms rule: rev_induct)
  case Nil
  show ?case by simp
next
  case (snoc m ms)
  let ?G = "foldl (addToChunkModules hex g) [] ms"
  let ?k = "entryHashSum hex g m"
  have d: "distinct (map fst ?G)" and
       l: "\<And>k. map_of ?G k = (if k \<in> entryHashSum hex g ` set ms
                               then Some (filter (\<lambda>module. entryHashSum hex g module = k) ms) else None)"
    using snoc.IH by simp_all
  have f: "foldl (addToChunkModules hex g) [] (ms @ [m]) =
             AList.update ?k (filter (\<lambda>module. entryHashSum hex g module = ?k) ms @ [m]) ?G"
  proof (cases "?k \<in> entryHashSum hex g ` set ms")
    case True
    then show ?thesis using l [of ?k] by (simp add: addToChunkModules_def entryHashSum_def Let_def)
  next
    case False
    then have "filter (\<lambda>module. entryHashSum hex g module = ?k) ms = []"
      unfolding filter_empty_conv by (metis imageI)
    then show ?thesis
      using l [of ?k] False by (simp add: addToChunkModules_def entryHashSum_def Let_def)
  qed
  show ?case
    unfolding f using d l by (auto simp: distinct_update update_conv')
qed

lemma chunkModules_member:
  assumes "i < length (foldl (addToChunkModules hex g) [] ms)"
  shows "snd (foldl (addToChunkModules hex g) [] ms ! i)
           = filter (\<lambda>module. entryHashSum hex g module = fst (foldl (addToChunkModules hex g) [] ms ! i)) ms
         \<and> fst (foldl (addToChunkModules hex g) [] ms ! i) \<in> entryHashSum hex g ` set ms"
proof -
  let ?G = "foldl (addToChunkModules hex g) [] ms"
  have "?G ! i \<in> set ?G" using assms by simp
  then have "(fst (?G ! i), snd (?G ! i)) \<in> set ?G" by simp
  then have "map_of ?G (fst (?G ! i)) = Some (snd (?G ! i))"
    using chunkModules_spec [of hex g ms] by (intro map_of_is_SomeI) simp_all
  then show ?thesis
    using chunkModules_spec [of hex g ms] by (auto split: if_splits)
qed

lemma chunk_modules_nth:
  assumes "i < length (foldl (addToChunkModules hex g) [] ms)"
  shows "chunk_modules (generateChunks hex isEmpty g False ms ! i)
           = sortByExecutionOrder g (snd (foldl (addToChunkModules hex g) [] ms ! i))"
  using assms by (simp add: generateChunks_def split_beta)

lemma chunk_members:
  assumes "i < length (generateChunks hex isEmpty g False ms)"
  shows "set (chunk_modules (generateChunks hex isEmpty g False ms ! i))
           = {module \<in> set ms. entryHashSum hex g module
                = fst (foldl (addToChunkModules hex g) [] ms ! i)}"
proof -
  have i: "i < length (foldl (addToChunkModules hex g) [] ms)"
    using assms by (simp add: generateChunks_def)
  show ?thesis
    using chunkModules_member [OF i] chunk_modules_nth [OF i, of isEmpty]
    by (auto simp: sortByExecutionOrder_def)
qed

text \<open>
  C8. With \<^verbatim>\<open>preserveModules\<close> false, every module of \<^verbatim>\<open>orderedModules\<close> is in exactly
  one of the chunks that \<^verbatim>\<open>build\<close> constructs; two modules are in the same chunk if and
  only if the hexadecimal strings of their \<^verbatim>\<open>entryPointsHash\<close> are equal; and the modules
  of each chunk are sorted by execution order. Each chunk is non-empty and holds modules
  of \<^verbatim>\<open>orderedModules\<close> only.
\<close>

theorem chunks_partition_by_entryPointsHash:
  "(\<forall>module \<in> set orderedModules.
      \<exists>!i. i < length (generateChunks hex isEmpty g False orderedModules)
         \<and> module \<in> set (chunk_modules (generateChunks hex isEmpty g False orderedModules ! i)))
   \<and> (\<forall>m1 \<in> set orderedModules. \<forall>m2 \<in> set orderedModules.
        (\<exists>c \<in> set (generateChunks hex isEmpty g False orderedModules).
            m1 \<in> set (chunk_modules c) \<and> m2 \<in> set (chunk_modules c))
        = (hex (entryPointsHash (theModule g m1)) = hex (entryPointsHash (theModule g m2))))
   \<and> (\<forall>c \<in> set (generateChunks hex isEmpty g False orderedModules).
        sorted (map (\<lambda>module. execIndex (theModule g module)) (chunk_modules c))
        \<and> chunk_modules c \<noteq> []
        \<and> set (chunk_modules c) \<subseteq> set orderedModules
        \<and> (distinct orderedModules \<longrightarrow> distinct (chunk_modules c)))"
proof (intro conjI ballI)
  let ?G = "foldl (addToChunkModules hex g) [] orderedModules"
  let ?C = "generateChunks hex isEmpty g False orderedModules"
  have len: "length ?C = length ?G" by (simp add: generateChunks_def)
  have dist: "distinct (map fst ?G)" using chunkModules_spec [of hex g orderedModules] by simp
  have key_index: "\<exists>i < length ?G. fst (?G ! i) = entryHashSum hex g module"
    if "module \<in> set orderedModules" for module
  proof -
    have "map_of ?G (entryHashSum hex g module) \<noteq> None"
      using chunkModules_spec [of hex g orderedModules] that by auto
    then have "entryHashSum hex g module \<in> fst ` set ?G" by (simp add: map_of_eq_None_iff)
    then have "entryHashSum hex g module \<in> set (map fst ?G)" by simp
    then obtain i where "i < length (map fst ?G)" "map fst ?G ! i = entryHashSum hex g module"
      by (auto simp: in_set_conv_nth)
    then show ?thesis by auto
  qed
  have index_unique: "i = j"
    if "i < length ?G" "j < length ?G" "fst (?G ! i) = fst (?G ! j)" for i j
    using that dist by (simp add: distinct_conv_nth) (metis length_map nth_map)
  {
    fix module assume m: "module \<in> set orderedModules"
    obtain i where i: "i < length ?G" "fst (?G ! i) = entryHashSum hex g module"
      using key_index [OF m] by blast
    show "\<exists>!i. i < length ?C \<and> module \<in> set (chunk_modules (?C ! i))"
    proof (intro ex1I [of _ i] conjI)
      show "i < length ?C" using i len by simp
      then show "module \<in> set (chunk_modules (?C ! i))"
        using chunk_members [of i hex isEmpty g orderedModules] m i by simp
    next
      fix j assume j: "j < length ?C \<and> module \<in> set (chunk_modules (?C ! j))"
      then have "fst (?G ! j) = entryHashSum hex g module"
        using chunk_members [of j hex isEmpty g orderedModules] by simp
      then show "j = i" using index_unique [of j i] j i len by simp
    qed
  }
  {
    fix m1 m2 assume m: "m1 \<in> set orderedModules" "m2 \<in> set orderedModules"
    show "(\<exists>c \<in> set ?C. m1 \<in> set (chunk_modules c) \<and> m2 \<in> set (chunk_modules c))
          = (hex (entryPointsHash (theModule g m1)) = hex (entryPointsHash (theModule g m2)))"
    proof
      assume "\<exists>c \<in> set ?C. m1 \<in> set (chunk_modules c) \<and> m2 \<in> set (chunk_modules c)"
      then obtain i where "i < length ?C" "m1 \<in> set (chunk_modules (?C ! i))"
          "m2 \<in> set (chunk_modules (?C ! i))"
        by (metis in_set_conv_nth)
      then have "entryHashSum hex g m1 = entryHashSum hex g m2"
        using chunk_members [of i hex isEmpty g orderedModules] by simp
      then show "hex (entryPointsHash (theModule g m1)) = hex (entryPointsHash (theModule g m2))"
        by (simp add: entryHashSum_def)
    next
      assume "hex (entryPointsHash (theModule g m1)) = hex (entryPointsHash (theModule g m2))"
      then have e: "entryHashSum hex g m1 = entryHashSum hex g m2" by (simp add: entryHashSum_def)
      obtain i where i: "i < length ?G" "fst (?G ! i) = entryHashSum hex g m1"
        using key_index [OF m(1)] by blast
      then have "m1 \<in> set (chunk_modules (?C ! i)) \<and> m2 \<in> set (chunk_modules (?C ! i))"
        using chunk_members [of i hex isEmpty g orderedModules] m e len by simp
      then show "\<exists>c \<in> set ?C. m1 \<in> set (chunk_modules c) \<and> m2 \<in> set (chunk_modules c)"
        using i(1) len by (metis nth_mem)
    qed
  }
  {
    fix c assume "c \<in> set ?C"
    then obtain i where i: "i < length ?C" "c = ?C ! i" by (metis in_set_conv_nth)
    then have ig: "i < length ?G" using len by simp
    have cm: "chunk_modules c = sortByExecutionOrder g (snd (?G ! i))"
      using chunk_modules_nth [OF ig, of isEmpty] i by simp
    have gi: "snd (?G ! i) = filter (\<lambda>module. entryHashSum hex g module = fst (?G ! i)) orderedModules"
         "fst (?G ! i) \<in> entryHashSum hex g ` set orderedModules"
      using chunkModules_member [OF ig] by simp_all
    show "sorted (map (\<lambda>module. execIndex (theModule g module)) (chunk_modules c))"
      by (simp add: cm sortByExecutionOrder_def)
    have "snd (?G ! i) \<noteq> []" using gi by (auto simp: filter_empty_conv)
    then show "chunk_modules c \<noteq> []"
      unfolding cm sortByExecutionOrder_def by (metis length_0_conv length_sort)
    show "set (chunk_modules c) \<subseteq> set orderedModules"
      using gi(1) by (auto simp: cm sortByExecutionOrder_def)
    show "distinct orderedModules \<longrightarrow> distinct (chunk_modules c)"
      using gi(1) by (simp add: cm sortByExecutionOrder_def)
  }
qed

lemma exampleOrdered_eval:
  "entryPointsHash (theModule exampleOrdered 0) = [171, 3]"
  "entryPointsHash (theModule exampleOrdered 1) = [205, 2]"
  "entryPointsHash (theModule exampleOrdered (Suc 0)) = [205, 2]"
  "entryPointsHash (theModule exampleOrdered 2) = [171, 3]"
  "execIndex (theModule exampleOrdered 0) = 2"
  "execIndex (theModule exampleOrdered 1) = 1"
  "execIndex (theModule exampleOrdered (Suc 0)) = 1"
  "execIndex (theModule exampleOrdered 2) = 0"
  by (simp_all add: exampleOrdered_def theModule_def)

lemma exampleHex_eval:
  "exampleHex [171, 3] = ''ab03''" "exampleHex [205, 2] = ''cd02''"
  by (simp_all add: exampleHex_def)

theorem chunks_partition_by_entryPointsHash_witness:
  "map chunk_modules (generateChunks exampleHex (\<lambda>ms. False) exampleOrdered False [2, 1, 0])
     = [[2, 0], [1]]
   \<and> exampleHex (entryPointsHash (theModule exampleOrdered 2))
       = exampleHex (entryPointsHash (theModule exampleOrdered 0))
   \<and> exampleHex (entryPointsHash (theModule exampleOrdered 1))
       \<noteq> exampleHex (entryPointsHash (theModule exampleOrdered 0))
   \<and> (\<exists>!i. i < length (generateChunks exampleHex (\<lambda>ms. False) exampleOrdered False [2, 1, 0])
          \<and> 0 \<in> set (chunk_modules
                 (generateChunks exampleHex (\<lambda>ms. False) exampleOrdered False [2, 1, 0] ! i)))"
proof -
  have c: "map chunk_modules (generateChunks exampleHex (\<lambda>ms. False) exampleOrdered False [2, 1, 0])
     = [[2, 0], [1]]"
    by (simp add: generateChunks_def addToChunkModules_def sortByExecutionOrder_def Let_def
          exampleOrdered_eval exampleHex_eval)
  show ?thesis
    using chunks_partition_by_entryPointsHash
            [of "[2, 1, 0]" exampleHex "\<lambda>ms. False" exampleOrdered] c
    by (simp add: exampleOrdered_eval exampleHex_eval)
qed

end
